theory Spec2Isabelle
  imports Complex_Main "HOL-Library.Word" "HOL-Library.Log_Nat"
begin

section \<open>Basic types\<close>

text \<open>
  The embedding follows \<^verbatim>\<open>src/Animations/src/svg/SvgCache.cpp\<close>.
  The C++ \<^verbatim>\<open>float\<close> values (positions, sizes, scales) are modelled by the real
  numbers they denote. The arithmetic of the cursor and of the sizes is exact; the
  products that \<^verbatim>\<open>hash\<close> casts to \<^verbatim>\<open>int\<close> are rounded to single precision,
  since the key depends on that rounding.
\<close>

type_synonym u8 = "8 word"
type_synonym u64 = "64 word"

datatype Vec2 = Vec2 (vec_x: real) (vec_y: real)

text \<open>
  The casts \<^verbatim>\<open>(int)f\<close> and \<^verbatim>\<open>(size_t)f\<close> discard the fraction (towards zero).
  C++ defines \<^verbatim>\<open>(int)f\<close> only when the result is in the range of the 32-bit
  \<^verbatim>\<open>int\<close>, which \<open>int_castable\<close> says of the value that is cast; beyond it
  \<open>truncate_int\<close> is the integer part all the same.
\<close>

definition truncate_int :: "real \<Rightarrow> int" where
  "truncate_int r = (if r < 0 then \<lceil>r\<rceil> else \<lfloor>r\<rfloor>)"


text \<open>
  Rounding to IEEE 754 single precision, to the nearest value and to the even one of
  two nearest: the exponent \<open>e\<close> of \<open>x\<close> (\<open>2 ^ e \<le> \<bar>x\<bar> < 2 ^ (e + 1)\<close>, and
  \<open>- 126\<close> below the normal numbers), and the multiple of \<open>2 ^ (e - 23)\<close> nearest to
  \<open>x\<close>. Values beyond the largest \<^verbatim>\<open>float\<close>, which round to infinity, are not
  modelled.
\<close>

definition round_half_even :: "real \<Rightarrow> int" where
  "round_half_even m =
     (if m - of_int \<lfloor>m\<rfloor> < 1 / 2 then \<lfloor>m\<rfloor>
      else if 1 / 2 < m - of_int \<lfloor>m\<rfloor> then \<lfloor>m\<rfloor> + 1
      else if even \<lfloor>m\<rfloor> then \<lfloor>m\<rfloor> else \<lfloor>m\<rfloor> + 1)"

definition float_exponent :: "real \<Rightarrow> int" where
  "float_exponent x = max (- 126) (bitlen \<lfloor>\<bar>x\<bar> * 2 ^ 149\<rfloor> - 150)"

definition float32_round :: "real \<Rightarrow> real" where
  "float32_round x =
     of_int (round_half_even (x / 2 powi (float_exponent x - 23)))
       * 2 powi (float_exponent x - 23)"

text \<open>The product and the sum of two \<^verbatim>\<open>float\<close> values.\<close>

definition float_mult :: "real \<Rightarrow> real \<Rightarrow> real" where
  "float_mult a b = float32_round (a * b)"


section \<open>The cache key: \<^verbatim>\<open>SvgCache::hash\<close>\<close>

text \<open>
  \<^verbatim>\<open>CMath::combineHash<int>\<close>, \<^verbatim>\<open>CMath::combineHash<uint64>\<close> and
  \<^verbatim>\<open>std::hash<std::string>\<close> are defined outside \<^verbatim>\<open>SvgCache.cpp\<close>;
  \<^verbatim>\<open>hash\<close> takes them as a parameter.
\<close>

record Hashers =
  combineHashInt :: "int \<Rightarrow> u64 \<Rightarrow> u64"
  combineHashU64 :: "u64 \<Rightarrow> u64 \<Rightarrow> u64"
  stdHashString :: "u8 list \<Rightarrow> u64"

definition hash :: "Hashers \<Rightarrow> u8 list \<Rightarrow> real \<Rightarrow> real \<Rightarrow> u64" where
  "hash H svgMd5 svgScale replacementTransform =
     (let roundedSvgScale = truncate_int (float_mult svgScale 1000);
          h1 = combineHashInt H roundedSvgScale 0;
          roundedTransform = truncate_int (float_mult replacementTransform 100);
          h2 = combineHashInt H roundedTransform h1;
          md5Hash = stdHashString H svgMd5
      in combineHashU64 H md5Hash h2)"

text \<open>
  A concrete instance of the three functions, used where a statement is
  evaluated on a concrete input: the usual shift-and-xor combiner over an identity hash
  of integers and a polynomial hash of the bytes.
\<close>

definition mixHash :: "u64 \<Rightarrow> u64 \<Rightarrow> u64" where
  "mixHash v h = xor h (v + 0x9e3779b9 + push_bit 6 h + drop_bit 2 h)"

definition sampleHashers :: Hashers where
  "sampleHashers =
     \<lparr> combineHashInt = (\<lambda>v h. mixHash (word_of_int v) h),
       combineHashU64 = mixHash,
       stdHashString = (\<lambda>bs. foldl (\<lambda>a b. a * 31 + ucast b) 7 bs) \<rparr>"

section \<open>The LRU store\<close>

text \<open>
  The class \<^verbatim>\<open>LRUCache\<close> (the type of \<^verbatim>\<open>cachedSvgs\<close>) is defined outside
  \<^verbatim>\<open>SvgCache.cpp\<close>. Its operations are modelled from section 4.2 of the
  specification.
  The store is the list of its entries in recency order, the oldest entry first; the
  traversal \<^verbatim>\<open>getOldest()\<close>, \<^verbatim>\<open>oldest->next\<close> of the eviction code is the traversal
  of this list from its head.
\<close>

type_synonym ('k, 'v) LRUCache = "('k \<times> 'v) list"

text \<open>Modelled from the spec: the unlinking of the node of a key, which the methods
  \<^verbatim>\<open>evict\<close>, \<^verbatim>\<open>insert\<close> and \<^verbatim>\<open>get\<close> of \<^verbatim>\<open>LRUCache\<close> share; the code of the
  class is outside \<^verbatim>\<open>SvgCache.cpp\<close>. The other entries keep their order.\<close>

definition lru_remove :: "'k \<Rightarrow> ('k, 'v) LRUCache \<Rightarrow> ('k, 'v) LRUCache" where
  "lru_remove k s = filter (\<lambda>e. fst e \<noteq> k) s"

text \<open>Modelled from the spec: \<^verbatim>\<open>LRUCache::exists\<close>, whose code is outside
  \<^verbatim>\<open>SvgCache.cpp\<close>. \<^verbatim>\<open>exists(key) -> bool\<close>; does not alter recency.\<close>

definition lru_exists :: "'k \<Rightarrow> ('k, 'v) LRUCache \<Rightarrow> bool" where
  "lru_exists k s = (map_of s k \<noteq> None)"

text \<open>Modelled from the spec: \<^verbatim>\<open>LRUCache::get\<close>, whose code is outside
  \<^verbatim>\<open>SvgCache.cpp\<close>. \<^verbatim>\<open>get(key) -> Option<PlacementRecord>\<close>; marks the entry as
  most-recently-used on a hit.\<close>

definition lru_get :: "'k \<Rightarrow> ('k, 'v) LRUCache \<Rightarrow> 'v option \<times> ('k, 'v) LRUCache" where
  "lru_get k s =
     (case map_of s k of
        None \<Rightarrow> (None, s)
      | Some v \<Rightarrow> (Some v, lru_remove k s @ [(k, v)]))"

text \<open>Modelled from the spec: \<^verbatim>\<open>LRUCache::insert\<close>, whose code is outside
  \<^verbatim>\<open>SvgCache.cpp\<close>. \<^verbatim>\<open>insert(key, record)\<close>; inserts or overwrites; the new or
  updated entry becomes most-recently-used; never fails.\<close>

definition lru_insert :: "'k \<Rightarrow> 'v \<Rightarrow> ('k, 'v) LRUCache \<Rightarrow> ('k, 'v) LRUCache" where
  "lru_insert k v s = lru_remove k s @ [(k, v)]"

text \<open>Modelled from the spec: \<^verbatim>\<open>LRUCache::evict\<close>, whose code is outside
  \<^verbatim>\<open>SvgCache.cpp\<close>. \<^verbatim>\<open>evict(key) -> bool\<close>; removes the entry; returns false if
  absent.\<close>

definition lru_evict :: "'k \<Rightarrow> ('k, 'v) LRUCache \<Rightarrow> bool \<times> ('k, 'v) LRUCache" where
  "lru_evict k s = (if lru_exists k s then (True, lru_remove k s) else (False, s))"

text \<open>Modelled from the spec: \<^verbatim>\<open>LRUCache::size\<close>, whose code is outside
  \<^verbatim>\<open>SvgCache.cpp\<close>. \<^verbatim>\<open>size() -> usize\<close>.\<close>

definition lru_size :: "('k, 'v) LRUCache \<Rightarrow> nat" where
  "lru_size s = length s"

text \<open>Modelled from the spec: \<^verbatim>\<open>LRUCache::clear\<close>, whose code is outside
  \<^verbatim>\<open>SvgCache.cpp\<close>. \<^verbatim>\<open>clear()\<close>.\<close>

definition lru_clear :: "('k, 'v) LRUCache" where
  "lru_clear = []"

section \<open>The state of the cache\<close>

text \<open>
  \<^verbatim>\<open>_SvgCacheEntryInternal\<close>, with the fields that \<^verbatim>\<open>put\<close> fills in. The colour
  attachment is an index into the attachments of the framebuffer, never negative.
\<close>

record SvgCacheEntryInternal =
  colorAttachment :: nat
  texCoordsMin :: Vec2
  texCoordsMax :: Vec2
  svgSize :: Vec2
  allottedSize :: Vec2
  textureOffset :: Vec2

text \<open>What the cache reads of its framebuffer: the size in pixels and the number of
  colour attachments (the pages).\<close>

record Framebuffer =
  width :: int
  height :: int
  colorAttachments :: nat

text \<open>The calls made to the rasterizer, \<^verbatim>\<open>svg->render\<close> (\<open>Sync\<close>) and
  \<^verbatim>\<open>svg->renderAsync\<close> (\<open>Async\<close>), with their arguments.\<close>

datatype DispatchMode = Sync | Async

record RenderCall =
  renderMode :: DispatchMode
  renderScale :: real
  renderTarget :: nat
  renderOffset :: Vec2

text \<open>The two messages that the cache gives to \<^verbatim>\<open>g_logger_error\<close> on a failed
  eviction, in \<^verbatim>\<open>put\<close> and in \<^verbatim>\<open>growCache\<close>, with the key.\<close>

datatype LogError = SvgCacheEvictionFailed u64 | FailedToEvictCacheEntry u64

text \<open>The calls \<^verbatim>\<open>cachedSvgs.insert(hashValue, res)\<close> and \<^verbatim>\<open>svg->render\<close> or
  \<^verbatim>\<open>svg->renderAsync\<close>, as entries of one list that keeps the order in which they
  are made.\<close>

datatype CacheCall = InsertCall u64 SvgCacheEntryInternal | RasterizeCall RenderCall

text \<open>
  The members of \<^verbatim>\<open>SvgCache\<close>. The last three fields are not members: they
  collect, in order, the calls that the cache makes to the rasterizer and to the
  logger, and, in \<open>callTrace\<close>, the insertions into the store and the calls of the
  rasterizer together, in the order in which they happen.
  The calls to the GPU layer that clear pixels leave all of these fields as they are
  and are not modelled.
\<close>

record SvgCache =
  framebuffer :: Framebuffer
  cachedSvgs :: "(u64, SvgCacheEntryInternal) LRUCache"
  cacheCurrentPos :: Vec2
  cacheCurrentColorAttachment :: nat
  cacheLineHeight :: real
  renderCalls :: "RenderCall list"
  loggedErrors :: "LogError list"
  callTrace :: "CacheCall list"

definition cachePadding :: Vec2 where
  "cachePadding = Vec2 10 10"

text \<open>What \<^verbatim>\<open>put\<close> reads of an SVG object and of its parent: a null
  \<^verbatim>\<open>md5\<close> or \<^verbatim>\<open>svgObject\<close> pointer is \<open>None\<close>.\<close>

record BBox =
  bboxMin :: Vec2
  bboxMax :: Vec2

record SvgObject =
  md5 :: "u8 list option"
  md5Length :: nat
  bbox :: BBox

record AnimObject =
  svgObject :: "SvgObject option"
  svgScale :: real
  percentReplacementTransformed :: real

text \<open>
  The string \<^verbatim>\<open>std::string((const char*)svgMd5, svgMd5Length)\<close> that \<^verbatim>\<open>hash\<close>
  makes of \<^verbatim>\<open>md5\<close> and \<^verbatim>\<open>md5Length\<close>: the first \<^verbatim>\<open>md5Length\<close> bytes at
  \<^verbatim>\<open>md5\<close>, and the empty string for a null pointer with length 0. A null pointer
  with another length and a length beyond the bytes at \<^verbatim>\<open>md5\<close> have no defined
  result: \<open>None\<close>.
\<close>

definition md5String :: "SvgObject \<Rightarrow> u8 list option" where
  "md5String svg =
     (case md5 svg of
        None \<Rightarrow> if md5Length svg = 0 then Some [] else None
      | Some bs \<Rightarrow> if md5Length svg \<le> length bs then Some (take (md5Length svg) bs) else None)"

text \<open>The value that the public operations return: texture coordinates and the
  texture to sample, a page of the cache or the 1x1 dummy texture.\<close>

datatype TextureRef = ColorAttachmentRef nat | DummyTexture

datatype SvgCacheEntry = SvgCacheEntry Vec2 Vec2 TextureRef

text \<open>The eviction operation of the store, as \<^verbatim>\<open>put\<close> and \<^verbatim>\<open>growCache\<close>
  call it: whether it succeeded, and the store it leaves.\<close>

type_synonym Evict =
  "u64 \<Rightarrow> (u64, SvgCacheEntryInternal) LRUCache \<Rightarrow> bool \<times> (u64, SvgCacheEntryInternal) LRUCache"

section \<open>Lifecycle\<close>

text \<open>\<^verbatim>\<open>generateDefaultFramebuffer\<close>: at most 4096 pixels each way, four colour
  attachments.\<close>

definition generateDefaultFramebuffer :: "nat \<Rightarrow> nat \<Rightarrow> Framebuffer" where
  "generateDefaultFramebuffer w h =
     (if w > 4096 \<or> h > 4096
      then \<lparr> width = 4096, height = 4096, colorAttachments = 4 \<rparr>
      else \<lparr> width = int w, height = int h, colorAttachments = 4 \<rparr>)"

definition clearAll :: "SvgCache \<Rightarrow> SvgCache" where
  "clearAll c =
     c\<lparr> cacheCurrentPos := Vec2 0 0,
        cacheCurrentColorAttachment := 0,
        cacheLineHeight := 0,
        cachedSvgs := lru_clear \<rparr>"

text \<open>The cache as the application starts it: \<^verbatim>\<open>init()\<close>, then \<^verbatim>\<open>clearAll()\<close>.\<close>

definition initialCache :: SvgCache where
  "initialCache =
     clearAll
       \<lparr> framebuffer = generateDefaultFramebuffer 4096 4096,
         cachedSvgs = [],
         cacheCurrentPos = Vec2 0 0,
         cacheCurrentColorAttachment = 0,
         cacheLineHeight = 0,
         renderCalls = [],
         loggedErrors = [],
         callTrace = [] \<rparr>"

section \<open>Lookup\<close>

definition existsInternal :: "SvgCache \<Rightarrow> u64 \<Rightarrow> bool" where
  "existsInternal c k = lru_exists k (cachedSvgs c)"

definition getInternal :: "SvgCache \<Rightarrow> u64 \<Rightarrow> SvgCacheEntryInternal option \<times> SvgCache" where
  "getInternal c k =
     (case lru_get k (cachedSvgs c) of (res, s) \<Rightarrow> (res, c\<lparr> cachedSvgs := s \<rparr>))"

text \<open>The key of an object, where it has one: the guard
  \<^verbatim>\<open>animObj->svgObject && animObj->svgObject->md5\<close> and the call of \<^verbatim>\<open>hash\<close> that
  \<^verbatim>\<open>exists\<close>, \<^verbatim>\<open>get\<close> and \<^verbatim>\<open>getOrCreateIfNotExist\<close> share.\<close>

definition objectKey :: "Hashers \<Rightarrow> AnimObject \<Rightarrow> u64 option" where
  "objectKey H animObj =
     (case svgObject animObj of
        None \<Rightarrow> None
      | Some s \<Rightarrow>
          (case md5 s of
             None \<Rightarrow> None
           | Some bs \<Rightarrow>
               (case md5String s of
                  None \<Rightarrow> None
                | Some bytes \<Rightarrow>
                    Some (hash H bytes (svgScale animObj)
                            (percentReplacementTransformed animObj)))))"

definition exists_obj :: "Hashers \<Rightarrow> SvgCache \<Rightarrow> AnimObject \<Rightarrow> bool" where
  "exists_obj H c animObj =
     (case objectKey H animObj of None \<Rightarrow> False | Some k \<Rightarrow> existsInternal c k)"

text \<open>The block that \<^verbatim>\<open>get\<close> and \<^verbatim>\<open>getOrCreateIfNotExist\<close> start with: the
  entry of the object's key, if the object has a key and the store has the key.\<close>

definition cachedEntry :: "Hashers \<Rightarrow> SvgCache \<Rightarrow> AnimObject \<Rightarrow> (SvgCacheEntry \<times> SvgCache) option" where
  "cachedEntry H c animObj =
     (case objectKey H animObj of
        None \<Rightarrow> None
      | Some k \<Rightarrow>
          (case getInternal c k of
             (None, c') \<Rightarrow> None
           | (Some entry, c') \<Rightarrow>
               Some (SvgCacheEntry (texCoordsMin entry) (texCoordsMax entry)
                       (ColorAttachmentRef (colorAttachment entry)), c')))"

definition get :: "Hashers \<Rightarrow> SvgCache \<Rightarrow> AnimObject \<Rightarrow> SvgCacheEntry \<times> SvgCache" where
  "get H c animObj =
     (case cachedEntry H c animObj of
        Some r \<Rightarrow> r
      | None \<Rightarrow> (SvgCacheEntry (Vec2 0 0) (Vec2 1 1) DummyTexture, c))"

section \<open>The shelf cursor\<close>

definition incrementCacheCurrentY :: "SvgCache \<Rightarrow> SvgCache" where
  "incrementCacheCurrentY c =
     c\<lparr> cacheCurrentPos :=
          Vec2 0 (vec_y (cacheCurrentPos c) + (cacheLineHeight c + vec_y cachePadding)),
        cacheLineHeight := 0 \<rparr>"

definition incrementCacheCurrentX :: "real \<Rightarrow> SvgCache \<Rightarrow> SvgCache" where
  "incrementCacheCurrentX distance c =
     c\<lparr> cacheCurrentPos :=
          Vec2 (vec_x (cacheCurrentPos c) + distance) (vec_y (cacheCurrentPos c)) \<rparr>"

definition checkLineHeight :: "real \<Rightarrow> SvgCache \<Rightarrow> SvgCache" where
  "checkLineHeight newLineHeight c =
     c\<lparr> cacheLineHeight := max (cacheLineHeight c) newLineHeight \<rparr>"

section \<open>Growing: \<^verbatim>\<open>SvgCache::growCache\<close>\<close>

text \<open>
  The loop of \<^verbatim>\<open>growCache\<close> over the entries from the oldest on: the first argument
  of the pair is the store, the second the log. An entry on the page \<open>page\<close> is evicted
  and a failure is logged; the loop goes on with the node that was next.
\<close>

fun growLoop ::
  "Evict \<Rightarrow> nat \<Rightarrow> (u64 \<times> SvgCacheEntryInternal) list
     \<Rightarrow> (u64, SvgCacheEntryInternal) LRUCache \<times> LogError list
     \<Rightarrow> (u64, SvgCacheEntryInternal) LRUCache \<times> LogError list" where
  "growLoop ev page [] (s, lg) = (s, lg)"
| "growLoop ev page (oldest # next) (s, lg) =
     (if colorAttachment (snd oldest) = page
      then (case ev (fst oldest) s of
              (True, s') \<Rightarrow> growLoop ev page next (s', lg)
            | (False, s') \<Rightarrow> growLoop ev page next (s', lg @ [FailedToEvictCacheEntry (fst oldest)]))
      else growLoop ev page next (s, lg))"

text \<open>\<^verbatim>\<open>growCache\<close>. With no colour attachment the remainder divides by zero:
  \<open>None\<close>. The line height is left as it is.\<close>

definition growCache :: "Evict \<Rightarrow> SvgCache \<Rightarrow> SvgCache option" where
  "growCache ev c =
     (if colorAttachments (framebuffer c) = 0 then None
      else
        let page = (cacheCurrentColorAttachment c + 1) mod colorAttachments (framebuffer c);
            r = growLoop ev page (cachedSvgs c) (cachedSvgs c, loggedErrors c)
        in Some (c\<lparr> cacheCurrentColorAttachment := page,
                     cachedSvgs := fst r,
                     loggedErrors := snd r,
                     cacheCurrentPos := Vec2 0 0 \<rparr>))"

section \<open>Placement: \<^verbatim>\<open>SvgCache::put\<close>\<close>

definition evictionThreshold :: real where
  "evictionThreshold = 1 / 10"

definition maxNumEntriesToTry :: "nat \<Rightarrow> nat" where
  "maxNumEntriesToTry n = nat (truncate_int (evictionThreshold * real n))"

text \<open>
  The loop of \<^verbatim>\<open>put\<close> that looks for a slot to reuse, lines 125 to 153, up to the
  eviction: the nodes from \<^verbatim>\<open>oldest\<close> on, the counter and the bound. The result is
  the entry at which the loop breaks, if it does, and the counter when the loop ends,
  which is the number of entries that were looked at and did not fit.
\<close>

fun findEvictable ::
  "real \<Rightarrow> real \<Rightarrow> (u64 \<times> SvgCacheEntryInternal) list \<Rightarrow> nat \<Rightarrow> nat
     \<Rightarrow> (u64 \<times> SvgCacheEntryInternal) option \<times> nat" where
  "findEvictable w h [] counter maxN = (None, counter)"
| "findEvictable w h (oldest # next) counter maxN =
     (if counter < maxN
      then (if vec_x (allottedSize (snd oldest)) \<ge> w \<and> vec_y (allottedSize (snd oldest)) \<ge> h
            then (Some oldest, counter)
            else findEvictable w h next (Suc counter) maxN)
      else (None, counter))"

text \<open>The size of the SVG at the scale of its parent, as \<^verbatim>\<open>put\<close> and
  \<^verbatim>\<open>render\<close> compute it.\<close>

definition svgTotalWidth :: "AnimObject \<Rightarrow> SvgObject \<Rightarrow> real" where
  "svgTotalWidth parent svg =
     (vec_x (bboxMax (bbox svg)) - vec_x (bboxMin (bbox svg))) * svgScale parent"

definition svgTotalHeight :: "AnimObject \<Rightarrow> SvgObject \<Rightarrow> real" where
  "svgTotalHeight parent svg =
     (vec_y (bboxMax (bbox svg)) - vec_y (bboxMin (bbox svg))) * svgScale parent"

text \<open>The local variables of \<^verbatim>\<open>put\<close> that say where the SVG goes.\<close>

record Placement =
  svgTextureOffset :: Vec2
  colorAttachmentToRenderTo :: nat
  allotted :: Vec2
  incrementX :: bool

text \<open>
  Lines 116 to 178 of \<^verbatim>\<open>put\<close>: the page has no room below. The scan either breaks
  at an entry, which is evicted and whose slot is reused; or ends without one, and the
  cache grows. When the eviction of the entry fails, the failure is logged,
  \<^verbatim>\<open>oldest\<close> is set to null and the cache grows as well; \<^verbatim>\<open>allottedSize\<close> keeps
  the value that it was given before the eviction.
\<close>

definition evictOrGrow :: "Evict \<Rightarrow> SvgCache \<Rightarrow> real \<Rightarrow> real \<Rightarrow> (SvgCache \<times> Placement) option" where
  "evictOrGrow ev c w h =
     (case fst (findEvictable w h (cachedSvgs c) 0 (maxNumEntriesToTry (lru_size (cachedSvgs c)))) of
        None \<Rightarrow>
          (case growCache ev c of
             None \<Rightarrow> None
           | Some c' \<Rightarrow>
               Some (c', \<lparr> svgTextureOffset = cacheCurrentPos c',
                           colorAttachmentToRenderTo = cacheCurrentColorAttachment c',
                           allotted = Vec2 w h,
                           incrementX = True \<rparr>))
      | Some oldest \<Rightarrow>
          (case ev (fst oldest) (cachedSvgs c) of
             (True, s') \<Rightarrow>
               Some (c\<lparr> cachedSvgs := s' \<rparr>,
                     \<lparr> svgTextureOffset = textureOffset (snd oldest),
                       colorAttachmentToRenderTo = colorAttachment (snd oldest),
                       allotted = allottedSize (snd oldest),
                       incrementX = False \<rparr>)
           | (False, s') \<Rightarrow>
               (case growCache ev
                       (c\<lparr> cachedSvgs := s',
                           loggedErrors := loggedErrors c @ [SvgCacheEvictionFailed (fst oldest)] \<rparr>) of
                  None \<Rightarrow> None
                | Some c' \<Rightarrow>
                    Some (c', \<lparr> svgTextureOffset = cacheCurrentPos c',
                                colorAttachmentToRenderTo = cacheCurrentColorAttachment c',
                                allotted = allottedSize (snd oldest),
                                incrementX = True \<rparr>))))"


definition wrapIfNeeded :: "SvgCache \<Rightarrow> real \<Rightarrow> SvgCache" where
  "wrapIfNeeded c w =
     (let newRightX = truncate_int (vec_x (cacheCurrentPos c) + w + vec_x cachePadding)
      in if newRightX \<ge> width (framebuffer c) then incrementCacheCurrentY c else c)"

text \<open>Lines 113 to 179, from the state after that step: the SVG goes to the cursor
  unless it reaches the bottom edge.\<close>

definition placeAtCursor :: "Evict \<Rightarrow> SvgCache \<Rightarrow> real \<Rightarrow> real \<Rightarrow> (SvgCache \<times> Placement) option" where
  "placeAtCursor ev c w h =
     (let newBottomY = vec_y (cacheCurrentPos c) + h + vec_y cachePadding
      in if newBottomY \<ge> real_of_int (height (framebuffer c))
         then evictOrGrow ev c w h
         else Some (c, \<lparr> svgTextureOffset = cacheCurrentPos c,
                         colorAttachmentToRenderTo = cacheCurrentColorAttachment c,
                         allotted = Vec2 w h,
                         incrementX = True \<rparr>))"

text \<open>Lines 182 to 207: the texture coordinates, the step of the cursor, and the
  insertion of the entry into the store.\<close>

definition insertEntry :: "SvgCache \<Rightarrow> u64 \<Rightarrow> real \<Rightarrow> real \<Rightarrow> Placement \<Rightarrow> SvgCache" where
  "insertEntry c hashValue w h p =
     (let fw = real_of_int (width (framebuffer c));
          fh = real_of_int (height (framebuffer c));
          cacheUvMin = Vec2 (vec_x (svgTextureOffset p) / fw)
                            (1 - vec_y (svgTextureOffset p) / fw - h / fh);
          cacheUvMax = Vec2 (vec_x cacheUvMin + w / fw) (vec_y cacheUvMin + h / fh);
          c1 = (if incrementX p
                then checkLineHeight h (incrementCacheCurrentX (w + vec_x cachePadding) c)
                else c);
          res = \<lparr> colorAttachment = colorAttachmentToRenderTo p,
                  texCoordsMin = cacheUvMin,
                  texCoordsMax = cacheUvMax,
                  svgSize = Vec2 w h,
                  allottedSize = allotted p,
                  textureOffset = svgTextureOffset p \<rparr>
      in c1\<lparr> cachedSvgs := lru_insert hashValue res (cachedSvgs c1),
             callTrace := callTrace c1 @ [InsertCall hashValue res] \<rparr>)"

text \<open>Lines 209 to 230: the call of the rasterizer, synchronous when
  \<^verbatim>\<open>ExportPanel::isExportingVideo()\<close> says so.\<close>

definition dispatchRender :: "bool \<Rightarrow> real \<Rightarrow> Placement \<Rightarrow> SvgCache \<Rightarrow> SvgCache" where
  "dispatchRender isExportingVideo scale p c =
     c\<lparr> renderCalls := renderCalls c @
          [\<lparr> renderMode = (if isExportingVideo then Sync else Async),
             renderScale = scale,
             renderTarget = colorAttachmentToRenderTo p,
             renderOffset = svgTextureOffset p \<rparr>],
        callTrace := callTrace c @
          [RasterizeCall
             \<lparr> renderMode = (if isExportingVideo then Sync else Async),
               renderScale = scale,
               renderTarget = colorAttachmentToRenderTo p,
               renderOffset = svgTextureOffset p \<rparr>] \<rparr>"

text \<open>
  \<^verbatim>\<open>put(parent, svg)\<close>. Its arguments are \<open>parent\<close> and \<open>svg\<close>; \<open>c\<close> is the
  cache it is called on, \<open>isExportingVideo\<close> what the global
  \<^verbatim>\<open>ExportPanel::isExportingVideo()\<close> answers during the call, \<open>ev\<close> and \<open>H\<close> the
  eviction of the store and the hash functions. Where the string of \<^verbatim>\<open>svg->md5\<close>
  is not defined, neither is \<^verbatim>\<open>put\<close>: \<open>None\<close>.
\<close>

definition put_with ::
  "Evict \<Rightarrow> Hashers \<Rightarrow> bool \<Rightarrow> SvgCache \<Rightarrow> AnimObject \<Rightarrow> SvgObject \<Rightarrow> SvgCache option" where
  "put_with ev H isExportingVideo c parent svg =
     (case md5String svg of
        None \<Rightarrow> None
      | Some bytes \<Rightarrow>
          (let hashValue = hash H bytes (svgScale parent) (percentReplacementTransformed parent)
           in if existsInternal c hashValue then Some c
              else if svgTotalWidth parent svg \<le> 0 \<or> svgTotalHeight parent svg \<le> 0 then Some c
              else
                (case placeAtCursor ev (wrapIfNeeded c (svgTotalWidth parent svg))
                        (svgTotalWidth parent svg) (svgTotalHeight parent svg) of
                   None \<Rightarrow> None
                 | Some (c1, p) \<Rightarrow>
                     Some (dispatchRender isExportingVideo (svgScale parent) p
                             (insertEntry c1 hashValue
                                (svgTotalWidth parent svg) (svgTotalHeight parent svg) p)))))"

text \<open>\<^verbatim>\<open>put\<close> on the store of the specification.\<close>

definition put :: "Hashers \<Rightarrow> bool \<Rightarrow> SvgCache \<Rightarrow> AnimObject \<Rightarrow> SvgObject \<Rightarrow> SvgCache option" where
  "put = put_with lru_evict"

text \<open>\<^verbatim>\<open>getOrCreateIfNotExist(am, svg, obj)\<close>, with \<open>animObj\<close> the object that
  \<^verbatim>\<open>AnimationManager::getObject(am, obj)\<close> finds.\<close>

definition getOrCreateIfNotExist ::
  "Hashers \<Rightarrow> bool \<Rightarrow> SvgCache \<Rightarrow> SvgObject \<Rightarrow> AnimObject \<Rightarrow> (SvgCacheEntry \<times> SvgCache) option" where
  "getOrCreateIfNotExist H isExportingVideo c svg animObj =
     (case cachedEntry H c animObj of
        Some r \<Rightarrow> Some r
      | None \<Rightarrow>
          (case put H isExportingVideo c animObj svg of
             None \<Rightarrow> None
           | Some c' \<Rightarrow> Some (get H c' animObj)))"

section \<open>Concrete inputs\<close>

text \<open>Inputs on which the theorems below are evaluated: an SVG with the bounding box
  from the origin to \<open>(w, h)\<close> and the fingerprint \<open>bytes\<close>, an object that shows it
  at scale 1, and a stored entry that holds a slot of a given size.\<close>

definition rectSvg :: "u8 list \<Rightarrow> real \<Rightarrow> real \<Rightarrow> SvgObject" where
  "rectSvg bytes w h =
     \<lparr> md5 = Some bytes, md5Length = length bytes,
       bbox = \<lparr> bboxMin = Vec2 0 0, bboxMax = Vec2 w h \<rparr> \<rparr>"

definition objectOf :: "SvgObject \<Rightarrow> AnimObject" where
  "objectOf svg = \<lparr> svgObject = Some svg, svgScale = 1, percentReplacementTransformed = 0 \<rparr>"

definition slotEntry :: "nat \<Rightarrow> Vec2 \<Rightarrow> Vec2 \<Rightarrow> SvgCacheEntryInternal" where
  "slotEntry page off sz =
     \<lparr> colorAttachment = page,
       texCoordsMin = Vec2 0 0,
       texCoordsMax = Vec2 0 0,
       svgSize = sz,
       allottedSize = sz,
       textureOffset = off \<rparr>"

text \<open>A cache with one entry on page 1 and one on page 0, the current page being 0.\<close>

definition twoPageCache :: SvgCache where
  "twoPageCache =
     initialCache\<lparr> cachedSvgs :=
       [(1, slotEntry 1 (Vec2 0 0) (Vec2 50 50)), (2, slotEntry 0 (Vec2 0 0) (Vec2 60 60))] \<rparr>"

text \<open>A cache with a single entry, whose slot is 500 by 500 pixels, and the cursor
  near the bottom of page 0.\<close>

definition smallCache :: SvgCache where
  "smallCache =
     initialCache\<lparr> cachedSvgs := [(1, slotEntry 0 (Vec2 0 0) (Vec2 500 500))],
                    cacheCurrentPos := Vec2 0 4000 \<rparr>"

text \<open>A cache with twenty entries on page 0, the three oldest with large slots, and
  the cursor near the bottom of the page.\<close>

definition twentyCache :: SvgCache where
  "twentyCache =
     initialCache\<lparr> cachedSvgs :=
         [(1, slotEntry 0 (Vec2 0 0) (Vec2 500 500)),
          (2, slotEntry 0 (Vec2 510 0) (Vec2 600 600)),
          (3, slotEntry 0 (Vec2 1120 0) (Vec2 800 800))]
         @ map (\<lambda>n. (of_nat n, slotEntry 0 (Vec2 (60 * real n) 1000) (Vec2 50 50)))
             [4, 5, 6, 7, 8, 9, 10, 11, 12, 13, 14, 15, 16, 17, 18, 19, 20],
       cacheCurrentPos := Vec2 0 4000 \<rparr>"


text \<open>The cache after one \<^verbatim>\<open>put\<close> of an SVG of 100 by 100 pixels into the
  initial cache, not exporting.\<close>

definition onceCache :: SvgCache where
  "onceCache =
     initialCache
       \<lparr> cachedSvgs := [(hash sampleHashers [] 1 0,
             \<lparr> colorAttachment = 0, texCoordsMin = Vec2 0 (999 / 1024),
               texCoordsMax = Vec2 (25 / 1024) 1, svgSize = Vec2 100 100,
               allottedSize = Vec2 100 100, textureOffset = Vec2 0 0 \<rparr>)],
         cacheCurrentPos := Vec2 110 0,
         cacheLineHeight := 100,
         renderCalls := [\<lparr> renderMode = Async, renderScale = 1, renderTarget = 0,
                           renderOffset = Vec2 0 0 \<rparr>],
         callTrace :=
           [InsertCall (hash sampleHashers [] 1 0)
              \<lparr> colorAttachment = 0, texCoordsMin = Vec2 0 (999 / 1024),
                texCoordsMax = Vec2 (25 / 1024) 1, svgSize = Vec2 100 100,
                allottedSize = Vec2 100 100, textureOffset = Vec2 0 0 \<rparr>,
            RasterizeCall \<lparr> renderMode = Async, renderScale = 1, renderTarget = 0,
                            renderOffset = Vec2 0 0 \<rparr>] \<rparr>"

section \<open>Bounds of a placement\<close>

text \<open>The properties of a stored entry and of the cursor that the bounds of a
  placement are stated with: the slot is no smaller than the content; the slot lies
  within the page; the cursor and the line height are not negative.\<close>

definition slotCoversContent :: "SvgCacheEntryInternal \<Rightarrow> bool" where
  "slotCoversContent e =
     (vec_x (svgSize e) \<le> vec_x (allottedSize e) \<and> vec_y (svgSize e) \<le> vec_y (allottedSize e))"

definition slotWithinPage :: "Framebuffer \<Rightarrow> SvgCacheEntryInternal \<Rightarrow> bool" where
  "slotWithinPage fb e =
     (0 \<le> vec_x (textureOffset e) \<and> 0 \<le> vec_y (textureOffset e)
      \<and> vec_x (textureOffset e) + vec_x (allottedSize e) \<le> real_of_int (width fb)
      \<and> vec_y (textureOffset e) + vec_y (allottedSize e) \<le> real_of_int (height fb))"

definition cursorOnPage :: "SvgCache \<Rightarrow> bool" where
  "cursorOnPage c =
     (0 \<le> vec_x (cacheCurrentPos c) \<and> 0 \<le> vec_y (cacheCurrentPos c) \<and> 0 \<le> cacheLineHeight c)"

definition slotsCoverContent :: "SvgCache \<Rightarrow> bool" where
  "slotsCoverContent c = list_all slotCoversContent (map snd (cachedSvgs c))"

definition slotsWithinPage :: "SvgCache \<Rightarrow> bool" where
  "slotsWithinPage c = list_all (slotWithinPage (framebuffer c)) (map snd (cachedSvgs c))"

section \<open>Theorems about the cache key\<close>

lemma truncate_int_of_int: "truncate_int (of_int n) = n"
  by (simp add: truncate_int_def)

lemmas float_defs =
  float_mult_def float32_round_def float_exponent_def round_half_even_def compute_bitlen

text \<open>The \<^verbatim>\<open>float\<close> values of the literals 1.0001, 1.0004 and 1.0006, and their
  products with 1000, which all lie between 1000 and 1001.\<close>

lemma float_10001: "float32_round (10001 / 10000) = 8389447 / 8388608"
  by (simp add: float_defs)

lemma float_10004: "float32_round (10004 / 10000) = 8391963 / 8388608"
  by (simp add: float_defs)

lemma float_10006: "float32_round (10006 / 10000) = 8393641 / 8388608"
  by (simp add: float_defs)

lemma cast_10001: "truncate_int (float_mult (8389447 / 8388608) 1000) = 1000"
  by (simp add: float_defs truncate_int_def)

lemma cast_10004: "truncate_int (float_mult (8391963 / 8388608) 1000) = 1000"
  by (simp add: float_defs truncate_int_def)

lemma cast_10006: "truncate_int (float_mult (8393641 / 8388608) 1000) = 1000"
  by (simp add: float_defs truncate_int_def)

lemma cast_scale_1: "truncate_int (float_mult 1 1000) = 1000"
  by (simp add: float_defs truncate_int_def)

lemma cast_transform_0: "truncate_int (float_mult 0 100) = 0"
  by (simp add: float_defs truncate_int_def)

text \<open>
  C5, as stated: \<open>computeKey(f, 1.0004, t)\<close> differs from
  \<open>computeKey(f, 1.0006, t)\<close>. It does not: the \<^verbatim>\<open>float\<close> products
  \<open>1.0004f * 1000.0f\<close> and \<open>1.0006f * 1000.0f\<close> are both cast to the integer 1000,
  here for the empty fingerprint and transform 0.
\<close>

theorem C5_counterexample:
  "hash sampleHashers [] (float32_round (10004 / 10000)) 0
     = hash sampleHashers [] (float32_round (10006 / 10000)) 0"
  by (simp only: hash_def Let_def float_10004 float_10006 cast_10004 cast_10006)

text \<open>
  C5, amended: the \<^verbatim>\<open>float\<close> scales 1.0001, 1.0004 and 1.0006 give one and the same
  key, for every fingerprint, every transform and every choice of the combining
  functions: the cast of the product with 1000 truncates, to 1000 for all three.
\<close>

theorem C5_truncation_collapse:
  "hash H f (float32_round (10001 / 10000)) t = hash H f (float32_round (10004 / 10000)) t
   \<and> hash H f (float32_round (10004 / 10000)) t = hash H f (float32_round (10006 / 10000)) t"
  by (simp only: hash_def Let_def float_10001 float_10004 float_10006
        cast_10001 cast_10004 cast_10006 simp_thms)

text \<open>Two scales whose products are cast to the same integer, and two transforms
  likewise, give the same key.\<close>

lemma hash_same_buckets:
  "truncate_int (float_mult s1 1000) = truncate_int (float_mult s2 1000) \<Longrightarrow>
   truncate_int (float_mult t1 100) = truncate_int (float_mult t2 100) \<Longrightarrow>
   hash H f s1 t1 = hash H f s2 t2"
  by (simp add: hash_def)

text \<open>A null \<^verbatim>\<open>md5\<close> with length 0 is hashed as the empty string.\<close>

lemma md5String_null:
  "md5 svg = None \<Longrightarrow> md5Length svg = 0 \<Longrightarrow> md5String svg = Some []"
  by (simp add: md5String_def)

section \<open>The store and the growth of the cache\<close>

lemma lru_exists_iff: "lru_exists k s \<longleftrightarrow> k \<in> fst ` set s"
  by (simp add: lru_exists_def map_of_eq_None_iff)

lemma lru_remove_absent: "\<not> lru_exists k s \<Longrightarrow> lru_remove k s = s"
  by (induction s) (auto simp: lru_remove_def lru_exists_iff)

lemma snd_lru_evict: "snd (lru_evict k s) = lru_remove k s"
  by (simp add: lru_evict_def lru_remove_absent)

lemma lru_remove_filter:
  "lru_remove k (filter P s) = filter (\<lambda>e. P e \<and> fst e \<noteq> k) s"
  by (induction s) (auto simp: lru_remove_def)

lemma fst_growLoop_lru_evict:
  "fst (growLoop lru_evict page nodes (s, lg)) =
     filter (\<lambda>e. fst e \<notin> fst ` {n \<in> set nodes. colorAttachment (snd n) = page}) s"
proof (induction nodes arbitrary: s lg)
  case Nil
  show ?case by simp
next
  case (Cons oldest nxt)
  show ?case
  proof (cases "colorAttachment (snd oldest) = page")
    case False
    then show ?thesis using Cons.IH [of s lg]
      by (auto intro!: filter_cong)
  next
    case True
    obtain ok s' where ev: "lru_evict (fst oldest) s = (ok, s')"
      by (cases "lru_evict (fst oldest) s")
    then have s': "s' = lru_remove (fst oldest) s"
      using snd_lru_evict [of "fst oldest" s] by simp
    have "fst (growLoop lru_evict page (oldest # nxt) (s, lg)) =
          filter (\<lambda>e. fst e \<notin> fst ` {n \<in> set nxt. colorAttachment (snd n) = page}) s'"
      using True ev Cons.IH [of s'] by (cases ok) simp_all
    also have "\<dots> = filter (\<lambda>e. fst e \<notin> fst ` {n \<in> set (oldest # nxt). colorAttachment (snd n) = page}) s"
      unfolding s' lru_remove_def filter_filter using True
      by (intro filter_cong) auto
    finally show ?thesis .
  qed
qed

lemma filter_page_distinct:
  assumes "distinct (map fst s)"
  shows "filter (\<lambda>e. fst e \<notin> fst ` {n \<in> set s. colorAttachment (snd n) = page}) s =
         filter (\<lambda>e. colorAttachment (snd e) \<noteq> page) s"
proof (rule filter_cong [OF refl])
  fix e assume e: "e \<in> set s"
  show "(fst e \<notin> fst ` {n \<in> set s. colorAttachment (snd n) = page}) = (colorAttachment (snd e) \<noteq> page)"
  proof
    assume "fst e \<notin> fst ` {n \<in> set s. colorAttachment (snd n) = page}"
    with e show "colorAttachment (snd e) \<noteq> page" by auto
  next
    assume ne: "colorAttachment (snd e) \<noteq> page"
    show "fst e \<notin> fst ` {n \<in> set s. colorAttachment (snd n) = page}"
    proof
      assume "fst e \<in> fst ` {n \<in> set s. colorAttachment (snd n) = page}"
      then obtain n where n: "n \<in> set s" "colorAttachment (snd n) = page" "fst n = fst e" by auto
      from assms e n(1) n(3) have "n = e"
        by (metis eq_key_imp_eq_value prod.collapse)
      with n(2) ne show False by simp
    qed
  qed
qed

lemma cachedSvgs_growCache:
  assumes "growCache lru_evict c = Some c'" "distinct (map fst (cachedSvgs c))"
  shows "cachedSvgs c' =
         filter (\<lambda>e. colorAttachment (snd e) \<noteq> cacheCurrentColorAttachment c') (cachedSvgs c)"
  using assms
  by (auto simp: growCache_def Let_def fst_growLoop_lru_evict filter_page_distinct split: if_splits)

lemma map_of_filter_snd:
  assumes "distinct (map fst s)" "map_of s k = Some e"
  shows "map_of (filter (\<lambda>n. P (snd n)) s) k = (if P e then Some e else None)"
  using assms
proof (induction s)
  case Nil then show ?case by simp
next
  case (Cons a s)
  then show ?case
    by (cases a) (auto simp: map_of_eq_None_iff image_iff split: if_splits)
qed

text \<open>
  C7: in a cache with at least one page and distinct keys in the store,
  \<^verbatim>\<open>growCache\<close> moves to the page \<open>P\<close> that follows the current one modulo the
  number of pages; afterwards no key whose entry was on page \<open>P\<close> exists in the store,
  every entry on another page is still there as it was, and nothing was added.
\<close>

theorem C7_page_rotation_invalidation:
  assumes pages: "0 < colorAttachments (framebuffer c)"
    and keys: "distinct (map fst (cachedSvgs c))"
  shows "\<exists>c'. growCache lru_evict c = Some c'
           \<and> cacheCurrentColorAttachment c' =
               (cacheCurrentColorAttachment c + 1) mod colorAttachments (framebuffer c)
           \<and> (\<forall>k e. map_of (cachedSvgs c) k = Some e \<longrightarrow>
                 (if colorAttachment e = cacheCurrentColorAttachment c'
                  then \<not> existsInternal c' k
                  else map_of (cachedSvgs c') k = Some e))
           \<and> (\<forall>k. existsInternal c' k \<longrightarrow> existsInternal c k)"
proof -
  from pages obtain c' where g: "growCache lru_evict c = Some c'"
    by (auto simp: growCache_def Let_def)
  have page: "cacheCurrentColorAttachment c' =
               (cacheCurrentColorAttachment c + 1) mod colorAttachments (framebuffer c)"
    using g by (auto simp: growCache_def Let_def split: if_splits)
  note s' = cachedSvgs_growCache [OF g keys]
  have a: "\<forall>k e. map_of (cachedSvgs c) k = Some e \<longrightarrow>
                 (if colorAttachment e = cacheCurrentColorAttachment c'
                  then \<not> existsInternal c' k
                  else map_of (cachedSvgs c') k = Some e)"
    using map_of_filter_snd [OF keys, where P = "\<lambda>v. colorAttachment v \<noteq> cacheCurrentColorAttachment c'"]
    by (simp add: s' existsInternal_def lru_exists_def)
  have b: "\<forall>k. existsInternal c' k \<longrightarrow> existsInternal c k"
    by (auto simp: s' existsInternal_def lru_exists_iff)
  from g page a b show ?thesis by blast
qed

theorem C7_page_rotation_invalidation_witness:
  "0 < colorAttachments (framebuffer twoPageCache)
   \<and> distinct (map fst (cachedSvgs twoPageCache))
   \<and> (\<exists>c'. growCache lru_evict twoPageCache = Some c'
          \<and> cacheCurrentColorAttachment c' = 1
          \<and> \<not> existsInternal c' 1
          \<and> map_of (cachedSvgs c') 2 = Some (slotEntry 0 (Vec2 0 0) (Vec2 60 60)))"
proof -
  have pages: "0 < colorAttachments (framebuffer twoPageCache)"
    by (simp add: twoPageCache_def initialCache_def clearAll_def generateDefaultFramebuffer_def)
  have keys: "distinct (map fst (cachedSvgs twoPageCache))"
    by (simp add: twoPageCache_def)
  have cur: "cacheCurrentColorAttachment twoPageCache = 0"
            "colorAttachments (framebuffer twoPageCache) = 4"
    by (simp_all add: twoPageCache_def initialCache_def clearAll_def generateDefaultFramebuffer_def)
  have m1: "map_of (cachedSvgs twoPageCache) 1 = Some (slotEntry 1 (Vec2 0 0) (Vec2 50 50))"
    and m2: "map_of (cachedSvgs twoPageCache) 2 = Some (slotEntry 0 (Vec2 0 0) (Vec2 60 60))"
    by (simp_all add: twoPageCache_def)
  from C7_page_rotation_invalidation [OF pages keys] obtain c' where
    g: "growCache lru_evict twoPageCache = Some c'"
    and p: "cacheCurrentColorAttachment c' = 1"
    and inv: "\<forall>k e. map_of (cachedSvgs twoPageCache) k = Some e \<longrightarrow>
                 (if colorAttachment e = cacheCurrentColorAttachment c'
                  then \<not> existsInternal c' k
                  else map_of (cachedSvgs c') k = Some e)"
    by (auto simp: cur)
  from inv m1 p have a: "\<not> existsInternal c' 1"
    by (auto simp: slotEntry_def split: if_splits)
  from inv m2 p have b: "map_of (cachedSvgs c') 2 = Some (slotEntry 0 (Vec2 0 0) (Vec2 60 60))"
    by (auto simp: slotEntry_def split: if_splits)
  from pages keys g p a b show ?thesis by blast
qed

section \<open>The eviction scan\<close>

lemma maxNumEntriesToTry_div: "maxNumEntriesToTry n = n div 10"
proof -
  have "\<lfloor>real n / real 10\<rfloor> = int (n div 10)"
    by (rule floor_divide_of_nat_eq)
  then show ?thesis
    by (simp add: maxNumEntriesToTry_def evictionThreshold_def truncate_int_def)
qed

lemma findEvictable_counter:
  "snd (findEvictable w h nodes counter maxN) \<le> max counter maxN
   \<and> (fst (findEvictable w h nodes counter maxN) \<noteq> None
        \<longrightarrow> snd (findEvictable w h nodes counter maxN) < maxN)"
  by (induction w h nodes counter maxN rule: findEvictable.induct) auto

lemma findEvictable_take:
  "findEvictable w h (take (maxN - counter) nodes) counter maxN =
   findEvictable w h nodes counter maxN"
proof (induction w h nodes counter maxN rule: findEvictable.induct)
  case (1 w h counter maxN)
  show ?case by simp
next
  case (2 w h oldest nxt counter maxN)
  show ?case
  proof (cases "counter < maxN")
    case False
    then show ?thesis by simp
  next
    case True
    then have "maxN - counter = Suc (maxN - Suc counter)" by simp
    then show ?thesis using True 2 by simp
  qed
qed

lemma findEvictable_Some:
  "fst (findEvictable w h nodes counter maxN) = Some e \<Longrightarrow>
   e \<in> set (take (maxN - counter) nodes)
   \<and> w \<le> vec_x (allottedSize (snd e)) \<and> h \<le> vec_y (allottedSize (snd e))"
proof (induction w h nodes counter maxN rule: findEvictable.induct)
  case (1 w h counter maxN)
  then show ?case by simp
next
  case (2 w h oldest nxt counter maxN)
  show ?case
  proof (cases "counter < maxN")
    case False
    with 2 show ?thesis by simp
  next
    case True
    then have eq: "maxN - counter = Suc (maxN - Suc counter)" by simp
    show ?thesis using True 2 unfolding eq
      by (auto split: if_splits)
  qed
qed

lemma findEvictable_None:
  "\<not> (\<exists>e \<in> set (take (maxN - counter) nodes).
         w \<le> vec_x (allottedSize (snd e)) \<and> h \<le> vec_y (allottedSize (snd e)))
   \<Longrightarrow> fst (findEvictable w h nodes counter maxN) = None"
  using findEvictable_Some [of w h nodes counter maxN]
  by (cases "fst (findEvictable w h nodes counter maxN)") auto

lemma findEvictable_no_budget:
  "maxN \<le> counter \<Longrightarrow> findEvictable w h nodes counter maxN = (None, counter)"
  by (cases nodes) simp_all

section \<open>The steps of \<^verbatim>\<open>put\<close>\<close>

lemma wrapIfNeeded_fields [simp]:
  "framebuffer (wrapIfNeeded c w) = framebuffer c"
  "cachedSvgs (wrapIfNeeded c w) = cachedSvgs c"
  "cacheCurrentColorAttachment (wrapIfNeeded c w) = cacheCurrentColorAttachment c"
  "renderCalls (wrapIfNeeded c w) = renderCalls c"
  "loggedErrors (wrapIfNeeded c w) = loggedErrors c"
  by (simp_all add: wrapIfNeeded_def incrementCacheCurrentY_def Let_def)

lemma truncate_int_ge:
  "real_of_int n \<le> r \<Longrightarrow> n \<le> truncate_int r"
  by (auto simp: truncate_int_def le_floor_iff intro: order_trans [OF _ le_of_int_ceiling] simp: le_ceiling_iff)

lemma truncate_int_less:
  "truncate_int r < n \<Longrightarrow> r < real_of_int n"
  using truncate_int_ge [of n r] by (cases "real_of_int n \<le> r") auto


lemma put_with_miss:
  assumes "md5String svg = Some bytes"
    and "\<not> existsInternal c (hash H bytes (svgScale parent) (percentReplacementTransformed parent))"
    and "0 < svgTotalWidth parent svg" and "0 < svgTotalHeight parent svg"
  shows "put_with ev H ex c parent svg =
           (case placeAtCursor ev (wrapIfNeeded c (svgTotalWidth parent svg))
                   (svgTotalWidth parent svg) (svgTotalHeight parent svg) of
              None \<Rightarrow> None
            | Some (c1, p) \<Rightarrow>
                Some (dispatchRender ex (svgScale parent) p
                        (insertEntry c1 (hash H bytes (svgScale parent) (percentReplacementTransformed parent))
                           (svgTotalWidth parent svg) (svgTotalHeight parent svg) p)))"
  using assms by (simp add: put_with_def Let_def)

lemma growCache_Some:
  assumes "0 < colorAttachments (framebuffer c)"
  shows "\<exists>c'. growCache ev c = Some c'
           \<and> cacheCurrentColorAttachment c' =
               (cacheCurrentColorAttachment c + 1) mod colorAttachments (framebuffer c)
           \<and> cacheCurrentPos c' = Vec2 0 0
           \<and> cacheLineHeight c' = cacheLineHeight c
           \<and> framebuffer c' = framebuffer c
           \<and> renderCalls c' = renderCalls c"
  using assms by (simp add: growCache_def Let_def)

lemma placeAtCursor_overflow:
  assumes "real_of_int (height (framebuffer c)) \<le> vec_y (cacheCurrentPos c) + h + vec_y cachePadding"
  shows "placeAtCursor ev c w h = evictOrGrow ev c w h"
  using assms by (simp add: placeAtCursor_def Let_def)

lemma evictOrGrow_no_candidate:
  assumes "fst (findEvictable w h (cachedSvgs c) 0 (lru_size (cachedSvgs c) div 10)) = None"
  shows "evictOrGrow ev c w h =
           (case growCache ev c of
              None \<Rightarrow> None
            | Some c' \<Rightarrow>
                Some (c', \<lparr> svgTextureOffset = cacheCurrentPos c',
                            colorAttachmentToRenderTo = cacheCurrentColorAttachment c',
                            allotted = Vec2 w h,
                            incrementX = True \<rparr>))"
  using assms by (simp add: evictOrGrow_def maxNumEntriesToTry_div)

lemma evictOrGrow_reuse:
  assumes "evictOrGrow lru_evict c w h = Some (c', p)" and "\<not> incrementX p"
  shows "\<exists>oldest. fst (findEvictable w h (cachedSvgs c) 0 (lru_size (cachedSvgs c) div 10)) = Some oldest
           \<and> svgTextureOffset p = textureOffset (snd oldest)
           \<and> colorAttachmentToRenderTo p = colorAttachment (snd oldest)
           \<and> allotted p = allottedSize (snd oldest)
           \<and> cachedSvgs c' = lru_remove (fst oldest) (cachedSvgs c)"
  using assms
  by (auto simp: evictOrGrow_def maxNumEntriesToTry_div lru_evict_def
           split: option.splits if_splits prod.splits bool.splits)

text \<open>
  C6: when the SVG reaches the bottom edge of the page, with \<open>N\<close> entries in the
  store, the bound of the scan is \<open>N div 10\<close>, the integer part of \<open>0.1 * N\<close>; the
  scan looks at no more entries than that; its outcome is the one it has on the
  \<open>N div 10\<close> oldest entries alone; a slot that is reused is the slot of one of them;
  and when none of them is large enough the cache grows (the page rotates).
\<close>

theorem C6_eviction_scan_bound:
  assumes overflow:
    "real_of_int (height (framebuffer c)) \<le> vec_y (cacheCurrentPos c) + h + vec_y cachePadding"
    and N: "N = lru_size (cachedSvgs c)"
    and scan: "scan = findEvictable w h (cachedSvgs c) 0 (maxNumEntriesToTry N)"
  shows "maxNumEntriesToTry N = N div 10
     \<and> (case fst scan of None \<Rightarrow> snd scan | Some oldest \<Rightarrow> Suc (snd scan)) \<le> N div 10
     \<and> scan = findEvictable w h (take (N div 10) (cachedSvgs c)) 0 (N div 10)
     \<and> (\<forall>c' p. placeAtCursor lru_evict c w h = Some (c', p) \<and> \<not> incrementX p \<longrightarrow>
            (\<exists>oldest \<in> set (take (N div 10) (cachedSvgs c)).
                svgTextureOffset p = textureOffset (snd oldest)
              \<and> colorAttachmentToRenderTo p = colorAttachment (snd oldest)
              \<and> allotted p = allottedSize (snd oldest)))
     \<and> ((\<forall>e \<in> set (take (N div 10) (cachedSvgs c)).
            \<not> (w \<le> vec_x (allottedSize (snd e)) \<and> h \<le> vec_y (allottedSize (snd e)))) \<longrightarrow>
          placeAtCursor lru_evict c w h =
            (case growCache lru_evict c of
               None \<Rightarrow> None
             | Some c' \<Rightarrow>
                 Some (c', \<lparr> svgTextureOffset = cacheCurrentPos c',
                             colorAttachmentToRenderTo = cacheCurrentColorAttachment c',
                             allotted = Vec2 w h,
                             incrementX = True \<rparr>)))"
proof -
  have budget: "maxNumEntriesToTry N = N div 10"
    by (rule maxNumEntriesToTry_div)
  have scan': "scan = findEvictable w h (cachedSvgs c) 0 (N div 10)"
    by (simp add: scan budget)
  have inspected: "(case fst scan of None \<Rightarrow> snd scan | Some oldest \<Rightarrow> Suc (snd scan)) \<le> N div 10"
    using findEvictable_counter [of w h "cachedSvgs c" 0 "N div 10"]
    by (auto simp: scan' split: option.splits)
  have oldest_only: "scan = findEvictable w h (take (N div 10) (cachedSvgs c)) 0 (N div 10)"
    using findEvictable_take [of w h "N div 10" 0 "cachedSvgs c"] by (simp add: scan')
  have reuse: "\<forall>c' p. placeAtCursor lru_evict c w h = Some (c', p) \<and> \<not> incrementX p \<longrightarrow>
            (\<exists>oldest \<in> set (take (N div 10) (cachedSvgs c)).
                svgTextureOffset p = textureOffset (snd oldest)
              \<and> colorAttachmentToRenderTo p = colorAttachment (snd oldest)
              \<and> allotted p = allottedSize (snd oldest))"
  proof (intro allI impI)
    fix c' p
    assume a: "placeAtCursor lru_evict c w h = Some (c', p) \<and> \<not> incrementX p"
    then have "evictOrGrow lru_evict c w h = Some (c', p)"
      by (simp add: placeAtCursor_overflow [OF overflow])
    from evictOrGrow_reuse [OF this] a obtain oldest where
      o: "fst (findEvictable w h (cachedSvgs c) 0 (N div 10)) = Some oldest"
         "svgTextureOffset p = textureOffset (snd oldest)"
         "colorAttachmentToRenderTo p = colorAttachment (snd oldest)"
         "allotted p = allottedSize (snd oldest)"
      by (auto simp: N)
    from findEvictable_Some [OF o(1)] have "oldest \<in> set (take (N div 10) (cachedSvgs c))"
      by simp
    with o show "\<exists>oldest \<in> set (take (N div 10) (cachedSvgs c)).
                svgTextureOffset p = textureOffset (snd oldest)
              \<and> colorAttachmentToRenderTo p = colorAttachment (snd oldest)
              \<and> allotted p = allottedSize (snd oldest)"
      by blast
  qed
  have rotate: "(\<forall>e \<in> set (take (N div 10) (cachedSvgs c)).
            \<not> (w \<le> vec_x (allottedSize (snd e)) \<and> h \<le> vec_y (allottedSize (snd e)))) \<longrightarrow>
          placeAtCursor lru_evict c w h =
            (case growCache lru_evict c of
               None \<Rightarrow> None
             | Some c' \<Rightarrow>
                 Some (c', \<lparr> svgTextureOffset = cacheCurrentPos c',
                             colorAttachmentToRenderTo = cacheCurrentColorAttachment c',
                             allotted = Vec2 w h,
                             incrementX = True \<rparr>))"
  proof
    assume "\<forall>e \<in> set (take (N div 10) (cachedSvgs c)).
            \<not> (w \<le> vec_x (allottedSize (snd e)) \<and> h \<le> vec_y (allottedSize (snd e)))"
    then have "fst (findEvictable w h (cachedSvgs c) 0 (N div 10)) = None"
      by (intro findEvictable_None) simp
    then show "placeAtCursor lru_evict c w h =
            (case growCache lru_evict c of
               None \<Rightarrow> None
             | Some c' \<Rightarrow>
                 Some (c', \<lparr> svgTextureOffset = cacheCurrentPos c',
                             colorAttachmentToRenderTo = cacheCurrentColorAttachment c',
                             allotted = Vec2 w h,
                             incrementX = True \<rparr>))"
      unfolding placeAtCursor_overflow [OF overflow] N
      by (rule evictOrGrow_no_candidate)
  qed
  from budget inspected oldest_only reuse rotate show ?thesis by blast
qed

lemmas sample_defs =
  initialCache_def clearAll_def generateDefaultFramebuffer_def lru_clear_def
  rectSvg_def objectOf_def slotEntry_def cachePadding_def svgTotalWidth_def svgTotalHeight_def
  md5String_def

theorem C6_eviction_scan_bound_witness:
  "real_of_int (height (framebuffer twentyCache)) \<le> vec_y (cacheCurrentPos twentyCache) + 700 + vec_y cachePadding
   \<and> lru_size (cachedSvgs twentyCache) = 20
   \<and> maxNumEntriesToTry 20 = 2
   \<and> findEvictable 700 700 (cachedSvgs twentyCache) 0 (maxNumEntriesToTry 20) = (None, 2)
   \<and> map_option (incrementX \<circ> snd) (placeAtCursor lru_evict twentyCache 700 700) = Some True"
proof -
  have overflow: "real_of_int (height (framebuffer twentyCache))
                    \<le> vec_y (cacheCurrentPos twentyCache) + 700 + vec_y cachePadding"
    by (simp add: twentyCache_def sample_defs)
  have N: "20 = lru_size (cachedSvgs twentyCache)"
    by (simp add: twentyCache_def lru_size_def)
  have tk: "take 2 (cachedSvgs twentyCache) =
              [(1, slotEntry 0 (Vec2 0 0) (Vec2 500 500)), (2, slotEntry 0 (Vec2 510 0) (Vec2 600 600))]"
    by (simp add: twentyCache_def)
  have pages: "0 < colorAttachments (framebuffer twentyCache)"
    by (simp add: twentyCache_def sample_defs)
  note bound = C6_eviction_scan_bound [OF overflow N refl, of 700]
  from bound have budget: "maxNumEntriesToTry 20 = 2" by simp
  from bound have "findEvictable 700 700 (cachedSvgs twentyCache) 0 (maxNumEntriesToTry 20)
                   = findEvictable 700 700 (take (20 div 10) (cachedSvgs twentyCache)) 0 (20 div 10)"
    by blast
  then have scan: "findEvictable 700 700 (cachedSvgs twentyCache) 0 (maxNumEntriesToTry 20) = (None, 2)"
    by (simp add: tk slotEntry_def)
  have nofit: "\<forall>e \<in> set (take (20 div 10) (cachedSvgs twentyCache)).
            \<not> (700 \<le> vec_x (allottedSize (snd e)) \<and> 700 \<le> vec_y (allottedSize (snd e)))"
    by (simp add: tk slotEntry_def)
  from bound have "(\<forall>e \<in> set (take (20 div 10) (cachedSvgs twentyCache)).
            \<not> (700 \<le> vec_x (allottedSize (snd e)) \<and> 700 \<le> vec_y (allottedSize (snd e)))) \<longrightarrow>
          placeAtCursor lru_evict twentyCache 700 700 =
            (case growCache lru_evict twentyCache of
               None \<Rightarrow> None
             | Some c' \<Rightarrow>
                 Some (c', \<lparr> svgTextureOffset = cacheCurrentPos c',
                             colorAttachmentToRenderTo = cacheCurrentColorAttachment c',
                             allotted = Vec2 700 700,
                             incrementX = True \<rparr>))"
    by blast
  with nofit have "placeAtCursor lru_evict twentyCache 700 700 =
            (case growCache lru_evict twentyCache of
               None \<Rightarrow> None
             | Some c' \<Rightarrow>
                 Some (c', \<lparr> svgTextureOffset = cacheCurrentPos c',
                             colorAttachmentToRenderTo = cacheCurrentColorAttachment c',
                             allotted = Vec2 700 700,
                             incrementX = True \<rparr>))"
    by blast
  with growCache_Some [OF pages, of lru_evict]
  have rot: "map_option (incrementX \<circ> snd) (placeAtCursor lru_evict twentyCache 700 700) = Some True"
    by auto
  from overflow N budget scan rot show ?thesis by simp
qed

section \<open>Insertion and rasterization\<close>

lemma map_of_lru_remove: "map_of (lru_remove k s) = (map_of s)(k := None)"
  by (induction s) (auto simp: lru_remove_def fun_eq_iff)

lemma map_of_lru_insert: "map_of (lru_insert k v s) = (map_of s)(k \<mapsto> v)"
  by (auto simp: lru_insert_def map_of_lru_remove map_add_def fun_eq_iff split: option.splits)

lemma map_of_lru_insert_same: "map_of (lru_insert k v s) k = Some v"
  by (simp add: map_of_lru_insert)

lemma lru_exists_lru_insert: "lru_exists k (lru_insert k v s)"
  by (simp add: lru_exists_def map_of_lru_insert_same)

lemma insertEntry_fields:
  "framebuffer (insertEntry c k w h p) = framebuffer c"
  "renderCalls (insertEntry c k w h p) = renderCalls c"
  "loggedErrors (insertEntry c k w h p) = loggedErrors c"
  "cacheCurrentColorAttachment (insertEntry c k w h p) = cacheCurrentColorAttachment c"
  by (simp_all add: insertEntry_def Let_def checkLineHeight_def incrementCacheCurrentX_def)

lemma insertEntry_cursor:
  "incrementX p \<Longrightarrow>
     cacheCurrentPos (insertEntry c k w h p) =
       Vec2 (vec_x (cacheCurrentPos c) + (w + vec_x cachePadding)) (vec_y (cacheCurrentPos c))"
  "incrementX p \<Longrightarrow> cacheLineHeight (insertEntry c k w h p) = max (cacheLineHeight c) h"
  "\<not> incrementX p \<Longrightarrow> cacheCurrentPos (insertEntry c k w h p) = cacheCurrentPos c"
  "\<not> incrementX p \<Longrightarrow> cacheLineHeight (insertEntry c k w h p) = cacheLineHeight c"
  by (simp_all add: insertEntry_def Let_def checkLineHeight_def incrementCacheCurrentX_def)

lemma insertEntry_stored:
  "\<exists>e. map_of (cachedSvgs (insertEntry c k w h p)) k = Some e
       \<and> colorAttachment e = colorAttachmentToRenderTo p
       \<and> textureOffset e = svgTextureOffset p
       \<and> allottedSize e = allotted p
       \<and> svgSize e = Vec2 w h"
  by (simp add: insertEntry_def Let_def map_of_lru_insert_same)

lemma existsInternal_insertEntry: "existsInternal (insertEntry c k w h p) k"
  using insertEntry_stored [of c k w h p] by (auto simp: existsInternal_def lru_exists_def)

lemma dispatchRender_fields [simp]:
  "framebuffer (dispatchRender ex sc p c) = framebuffer c"
  "cachedSvgs (dispatchRender ex sc p c) = cachedSvgs c"
  "cacheCurrentPos (dispatchRender ex sc p c) = cacheCurrentPos c"
  "cacheCurrentColorAttachment (dispatchRender ex sc p c) = cacheCurrentColorAttachment c"
  "cacheLineHeight (dispatchRender ex sc p c) = cacheLineHeight c"
  "loggedErrors (dispatchRender ex sc p c) = loggedErrors c"
  by (simp_all add: dispatchRender_def)

lemma existsInternal_dispatchRender [simp]:
  "existsInternal (dispatchRender ex sc p c) k = existsInternal c k"
  by (simp add: existsInternal_def)

text \<open>
  C10: with fewer than 10 entries in the store the bound of the scan is 0; a new SVG
  that reaches the bottom edge of the page (after the step to the next line, if any)
  then never takes over a slot: \<^verbatim>\<open>put\<close> grows the cache, the current page becomes
  the next one and the entry is stored there at the origin with the size of the SVG as
  its slot, whatever the slots of the entries in the store are.
\<close>

theorem C10_small_store_rotates:
  assumes md5: "md5String svg = Some bytes"
    and key: "key = hash H bytes (svgScale parent) (percentReplacementTransformed parent)"
    and miss: "\<not> existsInternal c key"
    and w: "w = svgTotalWidth parent svg" and wpos: "0 < w"
    and h: "h = svgTotalHeight parent svg" and hpos: "0 < h"
    and overflow: "real_of_int (height (framebuffer c))
                     \<le> vec_y (cacheCurrentPos (wrapIfNeeded c w)) + h + vec_y cachePadding"
    and small: "lru_size (cachedSvgs c) < 10"
    and pages: "0 < colorAttachments (framebuffer c)"
    and page: "page = (cacheCurrentColorAttachment c + 1) mod colorAttachments (framebuffer c)"
  shows "maxNumEntriesToTry (lru_size (cachedSvgs c)) = 0
     \<and> (\<exists>c1 c'.
           growCache lru_evict (wrapIfNeeded c w) = Some c1
         \<and> put H ex c parent svg = Some c'
         \<and> c' = dispatchRender ex (svgScale parent)
                   \<lparr> svgTextureOffset = Vec2 0 0, colorAttachmentToRenderTo = page,
                     allotted = Vec2 w h, incrementX = True \<rparr>
                   (insertEntry c1 key w h
                      \<lparr> svgTextureOffset = Vec2 0 0, colorAttachmentToRenderTo = page,
                        allotted = Vec2 w h, incrementX = True \<rparr>)
         \<and> cacheCurrentColorAttachment c' = page
         \<and> (\<exists>e. map_of (cachedSvgs c') key = Some e
                \<and> colorAttachment e = page
                \<and> textureOffset e = Vec2 0 0
                \<and> allottedSize e = Vec2 w h))"
proof -
  let ?c0 = "wrapIfNeeded c w"
  let ?P = "\<lparr> svgTextureOffset = Vec2 0 0, colorAttachmentToRenderTo = page,
               allotted = Vec2 w h, incrementX = True \<rparr>"
  have budget: "maxNumEntriesToTry (lru_size (cachedSvgs c)) = 0"
    using small by (simp add: maxNumEntriesToTry_div)
  have pages0: "0 < colorAttachments (framebuffer ?c0)"
    using pages by simp
  from growCache_Some [OF pages0, of lru_evict] obtain c1 where
    g: "growCache lru_evict ?c0 = Some c1"
    and c1: "cacheCurrentColorAttachment c1 = page" "cacheCurrentPos c1 = Vec2 0 0"
    by (auto simp: page)
  have "fst (findEvictable w h (cachedSvgs ?c0) 0 (lru_size (cachedSvgs ?c0) div 10)) = None"
    using small by (simp add: findEvictable_no_budget)
  from evictOrGrow_no_candidate [OF this, of lru_evict]
  have "evictOrGrow lru_evict ?c0 w h = Some (c1, ?P)"
    by (simp add: g c1)
  moreover have "placeAtCursor lru_evict ?c0 w h = evictOrGrow lru_evict ?c0 w h"
    using overflow by (intro placeAtCursor_overflow) simp
  ultimately have place: "placeAtCursor lru_evict ?c0 w h = Some (c1, ?P)"
    by simp
  have put: "put H ex c parent svg =
               Some (dispatchRender ex (svgScale parent) ?P (insertEntry c1 key w h ?P))"
    unfolding put_def
    using put_with_miss [of svg bytes c H parent lru_evict ex] md5 miss wpos hpos place
    by (simp add: key w h)
  have cur: "cacheCurrentColorAttachment
               (dispatchRender ex (svgScale parent) ?P (insertEntry c1 key w h ?P)) = page"
    by (simp add: insertEntry_fields c1)
  from insertEntry_stored [of c1 key w h ?P]
  have stored: "\<exists>e. map_of (cachedSvgs (dispatchRender ex (svgScale parent) ?P
                                             (insertEntry c1 key w h ?P))) key = Some e
                \<and> colorAttachment e = page
                \<and> textureOffset e = Vec2 0 0
                \<and> allottedSize e = Vec2 w h"
    by auto
  from budget g put cur stored show ?thesis by blast
qed

lemma sample_key: "hash sampleHashers [] 1 0 = 11093818221616"
  by (simp add: hash_def cast_scale_1 cast_transform_0 sampleHashers_def mixHash_def)

theorem C10_small_store_rotates_witness:
  "md5String (rectSvg [] 100 100) = Some []
   \<and> \<not> existsInternal smallCache (hash sampleHashers [] 1 0)
   \<and> lru_size (cachedSvgs smallCache) < 10
   \<and> fst (findEvictable 100 100 (cachedSvgs smallCache) 0 1) \<noteq> None
   \<and> (\<exists>c'. put sampleHashers False smallCache (objectOf (rectSvg [] 100 100)) (rectSvg [] 100 100)
               = Some c'
          \<and> cacheCurrentColorAttachment c' = 1)"
proof -
  let ?svg = "rectSvg [] 100 100"
  have md5: "md5String ?svg = Some []"
    by (simp add: rectSvg_def md5String_def)
  have sc: "svgScale (objectOf ?svg) = 1" "percentReplacementTransformed (objectOf ?svg) = 0"
    by (simp_all add: objectOf_def)
  have miss: "\<not> existsInternal smallCache (hash sampleHashers [] 1 0)"
    by (simp add: existsInternal_def lru_exists_def smallCache_def sample_key)
  have w: "100 = svgTotalWidth (objectOf ?svg) ?svg" and h: "100 = svgTotalHeight (objectOf ?svg) ?svg"
    by (simp_all add: sample_defs)
  have nowrap: "wrapIfNeeded smallCache 100 = smallCache"
    by (simp add: wrapIfNeeded_def smallCache_def sample_defs truncate_int_def)
  have overflow: "real_of_int (height (framebuffer smallCache))
                     \<le> vec_y (cacheCurrentPos (wrapIfNeeded smallCache 100)) + 100 + vec_y cachePadding"
    unfolding nowrap by (simp add: smallCache_def sample_defs)
  have small: "lru_size (cachedSvgs smallCache) < 10"
    by (simp add: smallCache_def lru_size_def)
  have fits: "fst (findEvictable 100 100 (cachedSvgs smallCache) 0 1) \<noteq> None"
    by (simp add: smallCache_def slotEntry_def)
  have pages: "0 < colorAttachments (framebuffer smallCache)"
    by (simp add: smallCache_def sample_defs)
  have page: "1 = (cacheCurrentColorAttachment smallCache + 1) mod colorAttachments (framebuffer smallCache)"
    by (simp add: smallCache_def sample_defs)
  from C10_small_store_rotates [where ex = False and H = sampleHashers and parent = "objectOf ?svg",
      OF md5 refl _ w _ h _ overflow small pages page]
    miss
  have "\<exists>c'. put sampleHashers False smallCache (objectOf ?svg) ?svg = Some c'
          \<and> cacheCurrentColorAttachment c' = 1"
    by (auto simp: sc)
  with md5 miss small fits show ?thesis by blast
qed



section \<open>Cache hits\<close>

lemma lru_get_present:
  assumes "lru_exists k s"
  shows "\<exists>e. map_of s k = Some e \<and> lru_get k s = (Some e, lru_remove k s @ [(k, e)])
           \<and> map_of (lru_remove k s @ [(k, e)]) = map_of s"
proof -
  from assms obtain e where e: "map_of s k = Some e"
    by (auto simp: lru_exists_def)
  have "map_of (lru_insert k e s) = map_of s"
    using e by (auto simp: map_of_lru_insert fun_eq_iff)
  with e show ?thesis
    by (simp add: lru_get_def lru_insert_def)
qed

lemma cachedEntry_hit:
  assumes key: "objectKey H animObj = Some k" and present: "existsInternal c k"
  shows "\<exists>e. map_of (cachedSvgs c) k = Some e
           \<and> cachedEntry H c animObj =
               Some (SvgCacheEntry (texCoordsMin e) (texCoordsMax e)
                       (ColorAttachmentRef (colorAttachment e)),
                     c\<lparr> cachedSvgs := lru_remove k (cachedSvgs c) @ [(k, e)] \<rparr>)
           \<and> map_of (lru_remove k (cachedSvgs c) @ [(k, e)]) = map_of (cachedSvgs c)"
  using lru_get_present [of k "cachedSvgs c"] present key
  by (auto simp: cachedEntry_def getInternal_def existsInternal_def)

lemma cachedEntry_miss:
  assumes "objectKey H animObj = Some k" and "\<not> existsInternal c k"
  shows "cachedEntry H c animObj = None"
  using assms
  by (simp add: cachedEntry_def getInternal_def existsInternal_def lru_exists_def lru_get_def)

text \<open>
  C1: when the key of the object is in the store, \<^verbatim>\<open>getOrCreateIfNotExist\<close> returns
  the texture coordinates and the page of the stored entry, calls the rasterizer not at
  all, and leaves every stored entry as it is (the entry of the key becomes the most
  recently used one); \<^verbatim>\<open>put\<close> with a key that is in the store changes nothing; and
  a second \<^verbatim>\<open>getOrCreateIfNotExist\<close>, made when the first has left the key in the
  store, returns what the first returned, again without a call of the rasterizer.
\<close>

theorem C1_cache_hit_idempotence:
  "(objectKey H animObj = Some k \<and> existsInternal c k \<longrightarrow>
      (\<exists>e c'. map_of (cachedSvgs c) k = Some e
           \<and> getOrCreateIfNotExist H ex c svg animObj =
               Some (SvgCacheEntry (texCoordsMin e) (texCoordsMax e)
                       (ColorAttachmentRef (colorAttachment e)), c')
           \<and> c' = c\<lparr> cachedSvgs := lru_remove k (cachedSvgs c) @ [(k, e)] \<rparr>
           \<and> map_of (cachedSvgs c') = map_of (cachedSvgs c)
           \<and> renderCalls c' = renderCalls c))
   \<and> (md5String svg = Some bytes
        \<and> existsInternal c (hash H bytes (svgScale parent) (percentReplacementTransformed parent)) \<longrightarrow>
      put H ex c parent svg = Some c)
   \<and> (getOrCreateIfNotExist H ex c svg animObj = Some (r1, c1)
        \<and> objectKey H animObj = Some k \<and> existsInternal c1 k \<longrightarrow>
      (\<exists>c2. getOrCreateIfNotExist H ex c1 svg animObj = Some (r1, c2)
           \<and> map_of (cachedSvgs c2) = map_of (cachedSvgs c1)
           \<and> renderCalls c2 = renderCalls c1))"
proof (intro conjI impI)
  assume a: "objectKey H animObj = Some k \<and> existsInternal c k"
  from cachedEntry_hit [of H animObj k c] a obtain e where
    e: "map_of (cachedSvgs c) k = Some e"
       "cachedEntry H c animObj =
               Some (SvgCacheEntry (texCoordsMin e) (texCoordsMax e)
                       (ColorAttachmentRef (colorAttachment e)),
                     c\<lparr> cachedSvgs := lru_remove k (cachedSvgs c) @ [(k, e)] \<rparr>)"
       "map_of (lru_remove k (cachedSvgs c) @ [(k, e)]) = map_of (cachedSvgs c)"
    by blast
  then show "\<exists>e c'. map_of (cachedSvgs c) k = Some e
           \<and> getOrCreateIfNotExist H ex c svg animObj =
               Some (SvgCacheEntry (texCoordsMin e) (texCoordsMax e)
                       (ColorAttachmentRef (colorAttachment e)), c')
           \<and> c' = c\<lparr> cachedSvgs := lru_remove k (cachedSvgs c) @ [(k, e)] \<rparr>
           \<and> map_of (cachedSvgs c') = map_of (cachedSvgs c)
           \<and> renderCalls c' = renderCalls c"
    by (simp add: getOrCreateIfNotExist_def)
next
  assume "md5String svg = Some bytes
        \<and> existsInternal c (hash H bytes (svgScale parent) (percentReplacementTransformed parent))"
  then show "put H ex c parent svg = Some c"
    by (simp add: put_def put_with_def)
next
  assume a: "getOrCreateIfNotExist H ex c svg animObj = Some (r1, c1)
        \<and> objectKey H animObj = Some k \<and> existsInternal c1 k"
  then have key: "objectKey H animObj = Some k" and present: "existsInternal c1 k"
    and first: "getOrCreateIfNotExist H ex c svg animObj = Some (r1, c1)"
    by simp_all
  from cachedEntry_hit [OF key present] obtain e where
    e: "map_of (cachedSvgs c1) k = Some e"
       "cachedEntry H c1 animObj =
               Some (SvgCacheEntry (texCoordsMin e) (texCoordsMax e)
                       (ColorAttachmentRef (colorAttachment e)),
                     c1\<lparr> cachedSvgs := lru_remove k (cachedSvgs c1) @ [(k, e)] \<rparr>)"
       "map_of (lru_remove k (cachedSvgs c1) @ [(k, e)]) = map_of (cachedSvgs c1)"
    by blast
  have same: "cachedEntry H c0 animObj = Some (r1, c1) \<Longrightarrow>
              r1 = SvgCacheEntry (texCoordsMin e) (texCoordsMax e)
                       (ColorAttachmentRef (colorAttachment e))" for c0
  proof -
    assume h: "cachedEntry H c0 animObj = Some (r1, c1)"
    have ex0: "existsInternal c0 k"
      using cachedEntry_miss [OF key, of c0] h by auto
    from cachedEntry_hit [OF key ex0] h e(1) show ?thesis
      by auto
  qed
  have r1: "r1 = SvgCacheEntry (texCoordsMin e) (texCoordsMax e)
                       (ColorAttachmentRef (colorAttachment e))"
  proof (cases "cachedEntry H c animObj")
    case (Some r)
    with first same [of c] show ?thesis
      by (simp add: getOrCreateIfNotExist_def)
  next
    case None
    with first obtain c' where c': "put H ex c animObj svg = Some c'" "get H c' animObj = (r1, c1)"
      by (auto simp: getOrCreateIfNotExist_def split: option.splits)
    show ?thesis
    proof (cases "cachedEntry H c' animObj")
      case (Some r)
      with c'(2) same [of c'] show ?thesis by (simp add: get_def)
    next
      case None
      with c'(2) have "c1 = c'" by (simp add: get_def)
      with None e(2) show ?thesis by simp
    qed
  qed
  show "\<exists>c2. getOrCreateIfNotExist H ex c1 svg animObj = Some (r1, c2)
           \<and> map_of (cachedSvgs c2) = map_of (cachedSvgs c1)
           \<and> renderCalls c2 = renderCalls c1"
    using e r1 by (simp add: getOrCreateIfNotExist_def)
qed

lemmas put_defs =
  put_def put_with_def placeAtCursor_def wrapIfNeeded_def insertEntry_def dispatchRender_def
  incrementCacheCurrentX_def incrementCacheCurrentY_def checkLineHeight_def
  existsInternal_def lru_exists_def lru_insert_def lru_remove_def truncate_int_def

lemma first_put:
  "put sampleHashers False initialCache (objectOf (rectSvg [] 100 100)) (rectSvg [] 100 100) =
     Some onceCache"
  by (simp add: onceCache_def put_defs sample_defs Let_def)

lemma objectKey_sample:
  "objectKey sampleHashers (objectOf (rectSvg bytes w h)) = Some (hash sampleHashers bytes 1 0)"
  by (simp add: objectKey_def objectOf_def rectSvg_def md5String_def)

theorem C1_cache_hit_idempotence_witness:
  "objectKey sampleHashers (objectOf (rectSvg [] 100 100)) = Some (hash sampleHashers [] 1 0)
   \<and> existsInternal onceCache (hash sampleHashers [] 1 0)
   \<and> md5String (rectSvg [] 100 100) = Some []
   \<and> getOrCreateIfNotExist sampleHashers False initialCache (rectSvg [] 100 100)
         (objectOf (rectSvg [] 100 100)) =
       Some (SvgCacheEntry (Vec2 0 (999 / 1024)) (Vec2 (25 / 1024) 1) (ColorAttachmentRef 0), onceCache)
   \<and> (\<exists>c2. getOrCreateIfNotExist sampleHashers False onceCache (rectSvg [] 100 100)
                (objectOf (rectSvg [] 100 100)) =
              Some (SvgCacheEntry (Vec2 0 (999 / 1024)) (Vec2 (25 / 1024) 1) (ColorAttachmentRef 0), c2)
          \<and> renderCalls c2 = renderCalls onceCache)
   \<and> put sampleHashers False onceCache (objectOf (rectSvg [] 100 100)) (rectSvg [] 100 100)
       = Some onceCache"
proof -
  let ?svg = "rectSvg [] 100 100"
  let ?k = "hash sampleHashers [] 1 0"
  let ?r = "SvgCacheEntry (Vec2 0 (999 / 1024)) (Vec2 (25 / 1024) 1) (ColorAttachmentRef 0)"
  have key: "objectKey sampleHashers (objectOf ?svg) = Some ?k"
    by (rule objectKey_sample)
  have present: "existsInternal onceCache ?k"
    by (simp add: onceCache_def existsInternal_def lru_exists_def)
  have md5: "md5String ?svg = Some []"
    by (simp add: rectSvg_def md5String_def)
  have sc: "svgScale (objectOf ?svg) = 1" "percentReplacementTransformed (objectOf ?svg) = 0"
    by (simp_all add: objectOf_def)
  have absent: "cachedEntry sampleHashers initialCache (objectOf ?svg) = None"
    by (rule cachedEntry_miss [OF key]) (simp add: sample_defs existsInternal_def lru_exists_def)
  have lookup: "get sampleHashers onceCache (objectOf ?svg) = (?r, onceCache)"
    by (simp add: get_def cachedEntry_def key getInternal_def lru_get_def onceCache_def lru_remove_def)
  have first: "getOrCreateIfNotExist sampleHashers False initialCache ?svg (objectOf ?svg)
                 = Some (?r, onceCache)"
    by (simp add: getOrCreateIfNotExist_def absent first_put lookup)
  note hit = C1_cache_hit_idempotence
    [where H = sampleHashers and animObj = "objectOf ?svg" and k = ?k and ex = False
       and svg = ?svg and bytes = "[]" and parent = "objectOf ?svg"]
  from hit [where c = initialCache and ?r1.0 = ?r and ?c1.0 = onceCache,
            THEN conjunct2, THEN conjunct2] first key present
  have second: "\<exists>c2. getOrCreateIfNotExist sampleHashers False onceCache ?svg (objectOf ?svg)
                        = Some (?r, c2)
                  \<and> renderCalls c2 = renderCalls onceCache"
    by blast
  from hit [where c = onceCache and ?r1.0 = ?r and ?c1.0 = onceCache,
            THEN conjunct2, THEN conjunct1] md5 present
  have again: "put sampleHashers False onceCache (objectOf ?svg) ?svg = Some onceCache"
    by (simp add: sc)
  from key present md5 first second again show ?thesis by blast
qed

section \<open>Order and mode of the rasterization\<close>

lemma evictOrGrow_Some:
  assumes "0 < colorAttachments (framebuffer c)"
  shows "\<exists>c1 p. evictOrGrow ev c w h = Some (c1, p)
           \<and> renderCalls c1 = renderCalls c \<and> framebuffer c1 = framebuffer c"
proof (cases "fst (findEvictable w h (cachedSvgs c) 0 (maxNumEntriesToTry (lru_size (cachedSvgs c))))")
  case None
  with growCache_Some [OF assms, of ev] show ?thesis
    by (auto simp: evictOrGrow_def)
next
  case (Some oldest)
  obtain ok s' where ev: "ev (fst oldest) (cachedSvgs c) = (ok, s')"
    by (cases "ev (fst oldest) (cachedSvgs c)")
  show ?thesis
  proof (cases ok)
    case True
    with Some ev show ?thesis by (simp add: evictOrGrow_def)
  next
    case False
    let ?c = "c\<lparr> cachedSvgs := s',
                 loggedErrors := loggedErrors c @ [SvgCacheEvictionFailed (fst oldest)] \<rparr>"
    have "0 < colorAttachments (framebuffer ?c)" using assms by simp
    from growCache_Some [OF this, of ev] Some ev False show ?thesis
      by (auto simp: evictOrGrow_def)
  qed
qed

lemma placeAtCursor_Some:
  assumes "0 < colorAttachments (framebuffer c)"
  shows "\<exists>c1 p. placeAtCursor ev c w h = Some (c1, p)
           \<and> renderCalls c1 = renderCalls c \<and> framebuffer c1 = framebuffer c"
  using evictOrGrow_Some [OF assms, of ev w h]
  by (auto simp: placeAtCursor_def Let_def)

lemma renderCalls_dispatchRender:
  "renderCalls (dispatchRender ex sc p c) =
     renderCalls c @ [\<lparr> renderMode = (if ex then Sync else Async), renderScale = sc,
                        renderTarget = colorAttachmentToRenderTo p,
                        renderOffset = svgTextureOffset p \<rparr>]"
  by (simp add: dispatchRender_def)

lemma callTrace_wrapIfNeeded [simp]: "callTrace (wrapIfNeeded c w) = callTrace c"
  by (simp add: wrapIfNeeded_def incrementCacheCurrentY_def Let_def)

lemma callTrace_growCache:
  "growCache ev c = Some c' \<Longrightarrow> callTrace c' = callTrace c"
  by (auto simp: growCache_def Let_def split: if_splits)

lemma callTrace_placeAtCursor:
  assumes "placeAtCursor ev c w h = Some (c1, p)"
  shows "callTrace c1 = callTrace c"
proof -
  have eg: "callTrace c1 = callTrace c" if "evictOrGrow ev c w h = Some (c1, p)"
  proof (cases "fst (findEvictable w h (cachedSvgs c) 0 (maxNumEntriesToTry (lru_size (cachedSvgs c))))")
    case None
    with that show ?thesis
      by (auto simp: evictOrGrow_def split: option.splits dest: callTrace_growCache)
  next
    case (Some oldest)
    obtain ok s' where ev: "ev (fst oldest) (cachedSvgs c) = (ok, s')"
      by (cases "ev (fst oldest) (cachedSvgs c)")
    show ?thesis
    proof (cases ok)
      case True
      with that Some ev show ?thesis by (auto simp: evictOrGrow_def)
    next
      case False
      with that Some ev show ?thesis
        by (auto simp: evictOrGrow_def split: option.splits dest: callTrace_growCache)
    qed
  qed
  from assms eg show ?thesis
    by (auto simp: placeAtCursor_def Let_def split: if_splits)
qed

lemma callTrace_insertEntry:
  "\<exists>e. map_of (cachedSvgs (insertEntry c k w h p)) k = Some e
       \<and> colorAttachment e = colorAttachmentToRenderTo p
       \<and> textureOffset e = svgTextureOffset p
       \<and> callTrace (insertEntry c k w h p) = callTrace c @ [InsertCall k e]"
  by (simp add: insertEntry_def Let_def map_of_lru_insert_same checkLineHeight_def
        incrementCacheCurrentX_def)

lemma callTrace_dispatchRender:
  "callTrace (dispatchRender ex sc p c) =
     callTrace c @ [RasterizeCall \<lparr> renderMode = (if ex then Sync else Async), renderScale = sc,
                        renderTarget = colorAttachmentToRenderTo p,
                        renderOffset = svgTextureOffset p \<rparr>]"
  by (simp add: dispatchRender_def)

text \<open>
  C2: on a cache miss with a placement (a key that is not in the store, a positive
  size), \<^verbatim>\<open>put\<close> returns. The record is written into the store strictly before the
  rasterizer is called: the trace of the returned cache is the trace of the cache
  given, then the insertion of the record \<open>e\<close> under the key, then the call of the
  rasterizer, in this order, and the record names the page and the offset that the
  rasterizer is given. In the state \<open>mid\<close> between the two the key is in the store
  and no call of the rasterizer has been added. The call, synchronous or not, leaves
  the store as it is; so on the cache returned, which in asynchronous mode is the
  cache while the rasterization is in flight, a \<^verbatim>\<open>put\<close> of the same key does nothing,
  and a \<^verbatim>\<open>getOrCreateIfNotExist\<close> of any object with this key is a hit: it returns
  the record \<open>e\<close> and adds no insertion and no call of the rasterizer.
\<close>

theorem C2_insert_before_rasterize:
  assumes md5: "md5String svg = Some bytes"
    and key: "key = hash H bytes (svgScale parent) (percentReplacementTransformed parent)"
    and miss: "\<not> existsInternal c key"
    and w: "w = svgTotalWidth parent svg" and wpos: "0 < w"
    and h: "h = svgTotalHeight parent svg" and hpos: "0 < h"
    and pages: "0 < colorAttachments (framebuffer c)"
  shows "\<exists>c1 p e mid c'.
           placeAtCursor lru_evict (wrapIfNeeded c w) w h = Some (c1, p)
         \<and> mid = insertEntry c1 key w h p
         \<and> put H ex c parent svg = Some c'
         \<and> c' = dispatchRender ex (svgScale parent) p mid
         \<and> existsInternal mid key
         \<and> map_of (cachedSvgs mid) key = Some e
         \<and> colorAttachment e = colorAttachmentToRenderTo p
         \<and> textureOffset e = svgTextureOffset p
         \<and> renderCalls mid = renderCalls c
         \<and> callTrace mid = callTrace c @ [InsertCall key e]
         \<and> renderCalls c' =
             renderCalls c @ [\<lparr> renderMode = (if ex then Sync else Async),
                                renderScale = svgScale parent,
                                renderTarget = colorAttachmentToRenderTo p,
                                renderOffset = svgTextureOffset p \<rparr>]
         \<and> callTrace c' =
             callTrace c @ [InsertCall key e,
                            RasterizeCall \<lparr> renderMode = (if ex then Sync else Async),
                                            renderScale = svgScale parent,
                                            renderTarget = colorAttachmentToRenderTo p,
                                            renderOffset = svgTextureOffset p \<rparr>]
         \<and> cachedSvgs c' = cachedSvgs mid
         \<and> put H ex c' parent svg = Some c'
         \<and> (\<forall>animObj svg2 ex2. objectKey H animObj = Some key \<longrightarrow>
               (\<exists>c2. getOrCreateIfNotExist H ex2 c' svg2 animObj =
                        Some (SvgCacheEntry (texCoordsMin e) (texCoordsMax e)
                                (ColorAttachmentRef (colorAttachment e)), c2)
                    \<and> callTrace c2 = callTrace c'
                    \<and> renderCalls c2 = renderCalls c'))"
proof -
  have "0 < colorAttachments (framebuffer (wrapIfNeeded c w))"
    using pages by simp
  from placeAtCursor_Some [OF this, of lru_evict w h] obtain c1 p where
    place: "placeAtCursor lru_evict (wrapIfNeeded c w) w h = Some (c1, p)"
    and calls: "renderCalls c1 = renderCalls c"
    by auto
  have trace1: "callTrace c1 = callTrace c"
    using callTrace_placeAtCursor [OF place] by simp
  define mid where "mid = insertEntry c1 key w h p"
  define c' where "c' = dispatchRender ex (svgScale parent) p mid"
  have put: "put H ex c parent svg = Some c'"
    using put_with_miss [of svg bytes c H parent lru_evict ex] md5 miss wpos hpos place
    unfolding put_def key w h c'_def mid_def by simp
  from callTrace_insertEntry [of c1 key w h p] obtain e where
    stored: "map_of (cachedSvgs mid) key = Some e"
    and slot: "colorAttachment e = colorAttachmentToRenderTo p"
              "textureOffset e = svgTextureOffset p"
    and traceMid: "callTrace mid = callTrace c @ [InsertCall key e]"
    unfolding mid_def trace1 by blast
  have present: "existsInternal mid key"
    using stored by (simp add: existsInternal_def lru_exists_def)
  have before: "renderCalls mid = renderCalls c"
    by (simp add: mid_def insertEntry_fields calls)
  have after: "renderCalls c' =
             renderCalls c @ [\<lparr> renderMode = (if ex then Sync else Async),
                                renderScale = svgScale parent,
                                renderTarget = colorAttachmentToRenderTo p,
                                renderOffset = svgTextureOffset p \<rparr>]"
    by (simp add: c'_def renderCalls_dispatchRender before)
  have trace: "callTrace c' =
             callTrace c @ [InsertCall key e,
                            RasterizeCall \<lparr> renderMode = (if ex then Sync else Async),
                                            renderScale = svgScale parent,
                                            renderTarget = colorAttachmentToRenderTo p,
                                            renderOffset = svgTextureOffset p \<rparr>]"
    by (simp add: c'_def callTrace_dispatchRender traceMid)
  have store: "cachedSvgs c' = cachedSvgs mid"
    by (simp add: c'_def)
  have present': "existsInternal c' key"
    using present by (simp add: c'_def)
  then have again: "put H ex c' parent svg = Some c'"
    using md5 by (simp add: put_def put_with_def key)
  have hit: "\<forall>animObj svg2 ex2. objectKey H animObj = Some key \<longrightarrow>
               (\<exists>c2. getOrCreateIfNotExist H ex2 c' svg2 animObj =
                        Some (SvgCacheEntry (texCoordsMin e) (texCoordsMax e)
                                (ColorAttachmentRef (colorAttachment e)), c2)
                    \<and> callTrace c2 = callTrace c'
                    \<and> renderCalls c2 = renderCalls c')"
  proof (intro allI impI)
    fix animObj svg2 ex2
    assume k: "objectKey H animObj = Some key"
    from cachedEntry_hit [OF k present'] stored store
    show "\<exists>c2. getOrCreateIfNotExist H ex2 c' svg2 animObj =
                        Some (SvgCacheEntry (texCoordsMin e) (texCoordsMax e)
                                (ColorAttachmentRef (colorAttachment e)), c2)
                    \<and> callTrace c2 = callTrace c'
                    \<and> renderCalls c2 = renderCalls c'"
      by (auto simp: getOrCreateIfNotExist_def)
  qed
  from place mid_def put c'_def present stored slot before traceMid after trace store again hit
  show ?thesis by blast
qed

text \<open>
  C3, amended: \<^verbatim>\<open>put\<close> has no parameter for the mode. On a cache miss with a
  placement, the same call on the same cache rasterizes synchronously when the global
  \<^verbatim>\<open>ExportPanel::isExportingVideo()\<close> is true and asynchronously when it is false,
  into the same page at the same offset.
\<close>

theorem C3_dispatch_by_export_flag:
  assumes md5: "md5String svg = Some bytes"
    and key: "key = hash H bytes (svgScale parent) (percentReplacementTransformed parent)"
    and miss: "\<not> existsInternal c key"
    and w: "w = svgTotalWidth parent svg" and wpos: "0 < w"
    and h: "h = svgTotalHeight parent svg" and hpos: "0 < h"
    and pages: "0 < colorAttachments (framebuffer c)"
  shows "\<exists>c1 p. placeAtCursor lru_evict (wrapIfNeeded c w) w h = Some (c1, p)
           \<and> (\<exists>c'. put H True c parent svg = Some c'
                  \<and> renderCalls c' =
                      renderCalls c @ [\<lparr> renderMode = Sync, renderScale = svgScale parent,
                                         renderTarget = colorAttachmentToRenderTo p,
                                         renderOffset = svgTextureOffset p \<rparr>])
           \<and> (\<exists>c'. put H False c parent svg = Some c'
                  \<and> renderCalls c' =
                      renderCalls c @ [\<lparr> renderMode = Async, renderScale = svgScale parent,
                                         renderTarget = colorAttachmentToRenderTo p,
                                         renderOffset = svgTextureOffset p \<rparr>])"
proof -
  have "0 < colorAttachments (framebuffer (wrapIfNeeded c w))"
    using pages by simp
  from placeAtCursor_Some [OF this, of lru_evict w h] obtain c1 p where
    place: "placeAtCursor lru_evict (wrapIfNeeded c w) w h = Some (c1, p)"
    and calls: "renderCalls c1 = renderCalls c"
    by auto
  have put: "put H ex c parent svg =
               Some (dispatchRender ex (svgScale parent) p (insertEntry c1 key w h p))" for ex
    using put_with_miss [of svg bytes c H parent lru_evict ex] md5 miss wpos hpos place
    unfolding put_def key w h by simp
  have r: "renderCalls (dispatchRender ex (svgScale parent) p (insertEntry c1 key w h p)) =
             renderCalls c @ [\<lparr> renderMode = (if ex then Sync else Async),
                                renderScale = svgScale parent,
                                renderTarget = colorAttachmentToRenderTo p,
                                renderOffset = svgTextureOffset p \<rparr>]" for ex
    by (simp add: renderCalls_dispatchRender insertEntry_fields calls)
  from place put [of True] put [of False] r [of True] r [of False]
  show ?thesis by simp
qed

text \<open>
  C3, as stated: the mode is determined by a parameter of the call alone. It is not:
  the same \<^verbatim>\<open>put(parent, svg)\<close> on the same cache calls \<^verbatim>\<open>render\<close> when the
  application is exporting video and \<^verbatim>\<open>renderAsync\<close> when it is not.
\<close>

theorem C3_counterexample:
  "map_option (map renderMode \<circ> renderCalls)
     (put sampleHashers True initialCache (objectOf (rectSvg [] 100 100)) (rectSvg [] 100 100))
     = Some [Sync]
   \<and> map_option (map renderMode \<circ> renderCalls)
     (put sampleHashers False initialCache (objectOf (rectSvg [] 100 100)) (rectSvg [] 100 100))
     = Some [Async]"
  by (simp add: put_defs sample_defs Let_def)

lemma initial_miss: "\<not> existsInternal initialCache k"
  by (simp add: sample_defs existsInternal_def lru_exists_def)

lemma initial_pages: "0 < colorAttachments (framebuffer initialCache)"
  by (simp add: sample_defs)

lemma sample_sizes:
  "svgTotalWidth (objectOf (rectSvg bytes w h)) (rectSvg bytes w h) = w"
  "svgTotalHeight (objectOf (rectSvg bytes w h)) (rectSvg bytes w h) = h"
  "md5String (rectSvg bytes w h) = Some bytes"
  "svgScale (objectOf svg) = 1"
  "percentReplacementTransformed (objectOf svg) = 0"
  by (simp_all add: sample_defs)

theorem C2_insert_before_rasterize_witness:
  "md5String (rectSvg [] 100 100) = Some []
   \<and> \<not> existsInternal initialCache (hash sampleHashers [] 1 0)
   \<and> 0 < colorAttachments (framebuffer initialCache)
   \<and> objectKey sampleHashers (objectOf (rectSvg [] 100 100)) = Some (hash sampleHashers [] 1 0)
   \<and> (\<exists>c' e call.
          put sampleHashers False initialCache (objectOf (rectSvg [] 100 100))
            (rectSvg [] 100 100) = Some c'
        \<and> callTrace c' = [InsertCall (hash sampleHashers [] 1 0) e, RasterizeCall call]
        \<and> renderCalls c' = [call]
        \<and> (\<exists>c2. getOrCreateIfNotExist sampleHashers False c' (rectSvg [] 100 100)
                     (objectOf (rectSvg [] 100 100)) =
                   Some (SvgCacheEntry (texCoordsMin e) (texCoordsMax e)
                           (ColorAttachmentRef (colorAttachment e)), c2)
               \<and> callTrace c2 = callTrace c'))"
proof -
  let ?svg = "rectSvg [] 100 100"
  let ?k = "hash sampleHashers [] 1 0"
  have pos: "(0::real) < 100" by simp
  have empty: "renderCalls initialCache = []" "callTrace initialCache = []"
    by (simp_all add: sample_defs)
  note key = objectKey_sample [of "[]" 100 100]
  have "\<exists>c' e (p::Placement).
      put sampleHashers False initialCache (objectOf ?svg) ?svg = Some c'
    \<and> renderCalls c' =
             renderCalls initialCache @ [\<lparr> renderMode = (if False then Sync else Async),
                                renderScale = svgScale (objectOf ?svg),
                                renderTarget = colorAttachmentToRenderTo p,
                                renderOffset = svgTextureOffset p \<rparr>]
    \<and> callTrace c' =
             callTrace initialCache @
               [InsertCall (hash sampleHashers [] (svgScale (objectOf ?svg))
                              (percentReplacementTransformed (objectOf ?svg))) e,
                RasterizeCall \<lparr> renderMode = (if False then Sync else Async),
                                renderScale = svgScale (objectOf ?svg),
                                renderTarget = colorAttachmentToRenderTo p,
                                renderOffset = svgTextureOffset p \<rparr>]
    \<and> (\<forall>animObj svg2 ex2.
                objectKey sampleHashers animObj =
                  Some (hash sampleHashers [] (svgScale (objectOf ?svg))
                          (percentReplacementTransformed (objectOf ?svg))) \<longrightarrow>
               (\<exists>c2. getOrCreateIfNotExist sampleHashers ex2 c' svg2 animObj =
                        Some (SvgCacheEntry (texCoordsMin e) (texCoordsMax e)
                                (ColorAttachmentRef (colorAttachment e)), c2)
                    \<and> callTrace c2 = callTrace c'
                    \<and> renderCalls c2 = renderCalls c'))"
    using C2_insert_before_rasterize [where H = sampleHashers and parent = "objectOf ?svg"
      and ex = False and c = initialCache and svg = ?svg and w = 100 and h = 100,
      OF sample_sizes(3) refl initial_miss sample_sizes(1) [symmetric] pos
         sample_sizes(2) [symmetric] pos initial_pages]
    by (elim exE conjE) (intro exI conjI; assumption)
  then obtain c' e and p :: Placement where
    put: "put sampleHashers False initialCache (objectOf ?svg) ?svg = Some c'"
    and calls: "renderCalls c' =
             renderCalls initialCache @ [\<lparr> renderMode = (if False then Sync else Async),
                                renderScale = svgScale (objectOf ?svg),
                                renderTarget = colorAttachmentToRenderTo p,
                                renderOffset = svgTextureOffset p \<rparr>]"
    and trace: "callTrace c' =
             callTrace initialCache @
               [InsertCall (hash sampleHashers [] (svgScale (objectOf ?svg))
                              (percentReplacementTransformed (objectOf ?svg))) e,
                RasterizeCall \<lparr> renderMode = (if False then Sync else Async),
                                renderScale = svgScale (objectOf ?svg),
                                renderTarget = colorAttachmentToRenderTo p,
                                renderOffset = svgTextureOffset p \<rparr>]"
    and hit: "\<forall>animObj svg2 ex2.
                objectKey sampleHashers animObj =
                  Some (hash sampleHashers [] (svgScale (objectOf ?svg))
                          (percentReplacementTransformed (objectOf ?svg))) \<longrightarrow>
               (\<exists>c2. getOrCreateIfNotExist sampleHashers ex2 c' svg2 animObj =
                        Some (SvgCacheEntry (texCoordsMin e) (texCoordsMax e)
                                (ColorAttachmentRef (colorAttachment e)), c2)
                    \<and> callTrace c2 = callTrace c'
                    \<and> renderCalls c2 = renderCalls c')"
    by blast
  let ?call = "\<lparr> renderMode = Async, renderScale = 1,
                 renderTarget = colorAttachmentToRenderTo p,
                 renderOffset = svgTextureOffset p \<rparr>"
  have trace': "callTrace c' = [InsertCall ?k e, RasterizeCall ?call]"
    using trace by (simp add: empty sample_sizes)
  have calls': "renderCalls c' = [?call]"
    using calls by (simp add: empty sample_sizes)
  have same: "hash sampleHashers [] (svgScale (objectOf ?svg))
                 (percentReplacementTransformed (objectOf ?svg)) = ?k"
    by (simp add: sample_sizes)
  from hit [unfolded same] key
  have "\<exists>c2. getOrCreateIfNotExist sampleHashers False c' ?svg (objectOf ?svg) =
                        Some (SvgCacheEntry (texCoordsMin e) (texCoordsMax e)
                                (ColorAttachmentRef (colorAttachment e)), c2)
                    \<and> callTrace c2 = callTrace c'"
    by blast
  with put trace' calls' have
    "\<exists>c' e call.
          put sampleHashers False initialCache (objectOf ?svg) ?svg = Some c'
        \<and> callTrace c' = [InsertCall ?k e, RasterizeCall call]
        \<and> renderCalls c' = [call]
        \<and> (\<exists>c2. getOrCreateIfNotExist sampleHashers False c' ?svg (objectOf ?svg) =
                   Some (SvgCacheEntry (texCoordsMin e) (texCoordsMax e)
                           (ColorAttachmentRef (colorAttachment e)), c2)
               \<and> callTrace c2 = callTrace c')"
    by blast
  with sample_sizes(3) [of "[]" 100 100] initial_miss initial_pages key show ?thesis
    by blast
qed

theorem C3_dispatch_by_export_flag_witness:
  "md5String (rectSvg [] 100 100) = Some []
   \<and> \<not> existsInternal initialCache (hash sampleHashers [] 1 0)
   \<and> 0 < colorAttachments (framebuffer initialCache)
   \<and> (\<exists>c'. put sampleHashers True initialCache (objectOf (rectSvg [] 100 100))
               (rectSvg [] 100 100) = Some c'
          \<and> map renderMode (renderCalls c') = [Sync])
   \<and> (\<exists>c'. put sampleHashers False initialCache (objectOf (rectSvg [] 100 100))
               (rectSvg [] 100 100) = Some c'
          \<and> map renderMode (renderCalls c') = [Async])"
proof -
  let ?svg = "rectSvg [] 100 100"
  have pos: "(0::real) < 100" by simp
  have none: "renderCalls initialCache = []"
    by (simp add: sample_defs)
  from C3_dispatch_by_export_flag [where H = sampleHashers and parent = "objectOf ?svg"
      and c = initialCache and svg = ?svg and w = 100 and h = 100,
      OF sample_sizes(3) refl initial_miss sample_sizes(1) [symmetric] pos
         sample_sizes(2) [symmetric] pos initial_pages]
  have "(\<exists>c'. put sampleHashers True initialCache (objectOf ?svg) ?svg = Some c'
          \<and> map renderMode (renderCalls c') = [Sync])
      \<and> (\<exists>c'. put sampleHashers False initialCache (objectOf ?svg) ?svg = Some c'
          \<and> map renderMode (renderCalls c') = [Async])"
    by (auto simp: none)
  with sample_sizes(3) [of "[]" 100 100] initial_miss initial_pages show ?thesis
    by blast
qed

section \<open>The bounds of a placement\<close>

lemma growCache_lru_evict_result:
  assumes "growCache lru_evict c = Some c1"
  shows "cacheCurrentPos c1 = Vec2 0 0 \<and> cacheLineHeight c1 = cacheLineHeight c
         \<and> framebuffer c1 = framebuffer c \<and> set (cachedSvgs c1) \<subseteq> set (cachedSvgs c)"
  using assms
  by (auto simp: growCache_def Let_def fst_growLoop_lru_evict split: if_splits)

lemma lru_evict_member:
  "oldest \<in> set s \<Longrightarrow> lru_evict (fst oldest) s = (True, lru_remove (fst oldest) s)"
  by (auto simp: lru_evict_def lru_exists_iff)

text \<open>
  The entry at which the scan of \<^verbatim>\<open>put\<close> breaks is an entry of the store, so that
  the store evicts it: with this store the branch of \<^verbatim>\<open>put\<close> that logs a failed
  eviction, sets \<^verbatim>\<open>oldest\<close> to null and grows the cache is not taken.
\<close>

lemma scan_candidate_evicted:
  assumes "fst (findEvictable w h s 0 m) = Some oldest"
  shows "lru_evict (fst oldest) s = (True, lru_remove (fst oldest) s)"
proof -
  from findEvictable_Some [OF assms] have "oldest \<in> set (take (m - 0) s)"
    by blast
  then have "oldest \<in> set s"
    by (rule in_set_takeD)
  then show ?thesis
    by (rule lru_evict_member)
qed

lemma placeAtCursor_cases:
  assumes "placeAtCursor lru_evict c w h = Some (c1, p)"
  shows "(c1 = c
          \<and> p = \<lparr> svgTextureOffset = cacheCurrentPos c,
                  colorAttachmentToRenderTo = cacheCurrentColorAttachment c,
                  allotted = Vec2 w h, incrementX = True \<rparr>
          \<and> vec_y (cacheCurrentPos c) + h + vec_y cachePadding < real_of_int (height (framebuffer c)))
       \<or> (\<exists>oldest \<in> set (cachedSvgs c).
             w \<le> vec_x (allottedSize (snd oldest)) \<and> h \<le> vec_y (allottedSize (snd oldest))
           \<and> c1 = c\<lparr> cachedSvgs := lru_remove (fst oldest) (cachedSvgs c) \<rparr>
           \<and> p = \<lparr> svgTextureOffset = textureOffset (snd oldest),
                   colorAttachmentToRenderTo = colorAttachment (snd oldest),
                   allotted = allottedSize (snd oldest), incrementX = False \<rparr>)
       \<or> (growCache lru_evict c = Some c1
           \<and> p = \<lparr> svgTextureOffset = Vec2 0 0,
                   colorAttachmentToRenderTo = cacheCurrentColorAttachment c1,
                   allotted = Vec2 w h, incrementX = True \<rparr>)"
proof (cases "real_of_int (height (framebuffer c)) \<le> vec_y (cacheCurrentPos c) + h + vec_y cachePadding")
  case False
  with assms show ?thesis
    by (auto simp: placeAtCursor_def Let_def)
next
  case True
  then have eg: "evictOrGrow lru_evict c w h = Some (c1, p)"
    using assms by (simp add: placeAtCursor_overflow)
  show ?thesis
  proof (cases "fst (findEvictable w h (cachedSvgs c) 0 (maxNumEntriesToTry (lru_size (cachedSvgs c))))")
    case None
    with eg obtain g where "growCache lru_evict c = Some g" "c1 = g"
      "p = \<lparr> svgTextureOffset = cacheCurrentPos g,
             colorAttachmentToRenderTo = cacheCurrentColorAttachment g,
             allotted = Vec2 w h, incrementX = True \<rparr>"
      by (auto simp: evictOrGrow_def split: option.splits)
    with growCache_lru_evict_result [of c g] show ?thesis by simp
  next
    case (Some oldest)
    from findEvictable_Some [OF Some] have mem: "oldest \<in> set (cachedSvgs c)"
      and fits: "w \<le> vec_x (allottedSize (snd oldest))" "h \<le> vec_y (allottedSize (snd oldest))"
      by (auto dest: in_set_takeD)
    from eg Some lru_evict_member [OF mem]
    have "c1 = c\<lparr> cachedSvgs := lru_remove (fst oldest) (cachedSvgs c) \<rparr>"
      "p = \<lparr> svgTextureOffset = textureOffset (snd oldest),
             colorAttachmentToRenderTo = colorAttachment (snd oldest),
             allotted = allottedSize (snd oldest), incrementX = False \<rparr>"
      by (auto simp: evictOrGrow_def)
    with mem fits show ?thesis by blast
  qed
qed

lemma wrapIfNeeded_cursor:
  assumes "cursorOnPage c" and "0 < w" and "w \<le> real_of_int (width (framebuffer c))"
  shows "cursorOnPage (wrapIfNeeded c w)
         \<and> vec_x (cacheCurrentPos (wrapIfNeeded c w)) + w \<le> real_of_int (width (framebuffer c))"
proof (cases "width (framebuffer c)
                \<le> truncate_int (vec_x (cacheCurrentPos c) + w + vec_x cachePadding)")
  case True
  with assms show ?thesis
    by (simp add: wrapIfNeeded_def incrementCacheCurrentY_def cursorOnPage_def cachePadding_def Let_def)
next
  case False
  then have "truncate_int (vec_x (cacheCurrentPos c) + w + vec_x cachePadding) < width (framebuffer c)"
    by simp
  from truncate_int_less [OF this] False assms show ?thesis
    by (simp add: wrapIfNeeded_def cursorOnPage_def cachePadding_def Let_def)
qed

lemma list_all_insertEntry:
  assumes "list_all P (map snd (cachedSvgs c))"
    and "P \<lparr> colorAttachment = colorAttachmentToRenderTo p,
             texCoordsMin = Vec2 (vec_x (svgTextureOffset p) / real_of_int (width (framebuffer c)))
                (1 - vec_y (svgTextureOffset p) / real_of_int (width (framebuffer c))
                   - h / real_of_int (height (framebuffer c))),
             texCoordsMax = Vec2 (vec_x (svgTextureOffset p) / real_of_int (width (framebuffer c))
                   + w / real_of_int (width (framebuffer c)))
                (1 - vec_y (svgTextureOffset p) / real_of_int (width (framebuffer c))
                   - h / real_of_int (height (framebuffer c))
                   + h / real_of_int (height (framebuffer c))),
             svgSize = Vec2 w h,
             allottedSize = allotted p,
             textureOffset = svgTextureOffset p \<rparr>"
  shows "list_all P (map snd (cachedSvgs (insertEntry c k w h p)))"
  using assms
  by (auto simp: insertEntry_def Let_def lru_insert_def lru_remove_def list_all_iff
        checkLineHeight_def incrementCacheCurrentX_def)

lemma cursorOnPage_insertEntry:
  assumes "cursorOnPage c" and "0 < w" and "0 < h"
  shows "cursorOnPage (insertEntry c k w h p)"
  using assms
  by (cases "incrementX p")
     (simp_all add: cursorOnPage_def insertEntry_cursor cachePadding_def)

lemma put_cases:
  assumes "put H ex c parent svg = Some c'"
  shows "c' = c
       \<or> (\<exists>bytes c1 p. md5String svg = Some bytes
             \<and> 0 < svgTotalWidth parent svg \<and> 0 < svgTotalHeight parent svg
             \<and> placeAtCursor lru_evict (wrapIfNeeded c (svgTotalWidth parent svg))
                  (svgTotalWidth parent svg) (svgTotalHeight parent svg) = Some (c1, p)
             \<and> c' = dispatchRender ex (svgScale parent) p
                      (insertEntry c1
                         (hash H bytes (svgScale parent) (percentReplacementTransformed parent))
                         (svgTotalWidth parent svg) (svgTotalHeight parent svg) p))"
  using assms
  by (auto simp: put_def put_with_def Let_def split: option.splits if_splits)

lemma list_all_subset:
  "list_all P (map snd s) \<Longrightarrow> set s' \<subseteq> set s \<Longrightarrow> list_all P (map snd s')"
  by (auto simp: list_all_iff)

lemma placeAtCursor_store:
  assumes "placeAtCursor lru_evict c w h = Some (c1, p)"
  shows "set (cachedSvgs c1) \<subseteq> set (cachedSvgs c) \<and> framebuffer c1 = framebuffer c"
  using placeAtCursor_cases [OF assms] growCache_lru_evict_result [of c c1]
  by (auto simp: lru_remove_def)

lemma placeAtCursor_allotted:
  assumes "placeAtCursor lru_evict c w h = Some (c1, p)"
  shows "w \<le> vec_x (allotted p) \<and> h \<le> vec_y (allotted p)"
  using placeAtCursor_cases [OF assms] by auto

lemma placeAtCursor_within:
  assumes place: "placeAtCursor lru_evict c w h = Some (c1, p)"
    and cursor: "cursorOnPage c"
    and slots: "list_all (slotWithinPage (framebuffer c)) (map snd (cachedSvgs c))"
    and fitx: "vec_x (cacheCurrentPos c) + w \<le> real_of_int (width (framebuffer c))"
    and fity: "h \<le> real_of_int (height (framebuffer c))"
    and pos: "0 < w" "0 < h"
  shows "cursorOnPage c1
       \<and> 0 \<le> vec_x (svgTextureOffset p) \<and> 0 \<le> vec_y (svgTextureOffset p)
       \<and> vec_x (svgTextureOffset p) + vec_x (allotted p) \<le> real_of_int (width (framebuffer c))
       \<and> vec_y (svgTextureOffset p) + vec_y (allotted p) \<le> real_of_int (height (framebuffer c))"
proof -
  from placeAtCursor_cases [OF place]
  consider
    (direct) "c1 = c"
      "p = \<lparr> svgTextureOffset = cacheCurrentPos c,
             colorAttachmentToRenderTo = cacheCurrentColorAttachment c,
             allotted = Vec2 w h, incrementX = True \<rparr>"
      "vec_y (cacheCurrentPos c) + h + vec_y cachePadding < real_of_int (height (framebuffer c))"
  | (reuse) oldest where "oldest \<in> set (cachedSvgs c)"
      "c1 = c\<lparr> cachedSvgs := lru_remove (fst oldest) (cachedSvgs c) \<rparr>"
      "p = \<lparr> svgTextureOffset = textureOffset (snd oldest),
             colorAttachmentToRenderTo = colorAttachment (snd oldest),
             allotted = allottedSize (snd oldest), incrementX = False \<rparr>"
  | (grow) "growCache lru_evict c = Some c1"
      "p = \<lparr> svgTextureOffset = Vec2 0 0,
             colorAttachmentToRenderTo = cacheCurrentColorAttachment c1,
             allotted = Vec2 w h, incrementX = True \<rparr>"
    by blast
  then show ?thesis
  proof cases
    case direct
    with cursor fitx show ?thesis
      by (simp add: cursorOnPage_def cachePadding_def)
  next
    case reuse
    from slots reuse(1) have "slotWithinPage (framebuffer c) (snd oldest)"
      by (auto simp: list_all_iff)
    with reuse cursor show ?thesis
      by (simp add: cursorOnPage_def slotWithinPage_def)
  next
    case grow
    from growCache_lru_evict_result [OF grow(1)] cursor fitx fity grow(2) show ?thesis
      by (simp add: cursorOnPage_def)
  qed
qed

text \<open>
  C8, amended: \<^verbatim>\<open>put\<close> keeps every slot at least as large as its content: if the
  stored entries have that property before, they have it after, the new entry
  included. And it keeps every slot within the page, and the cursor on the page,
  provided that the SVG at its scale is no wider and no higher than the page.
\<close>

theorem C8_placement_bounds:
  assumes put: "put H ex c parent svg = Some c'"
  shows "(slotsCoverContent c \<longrightarrow> slotsCoverContent c')
       \<and> (cursorOnPage c \<and> slotsWithinPage c
            \<and> svgTotalWidth parent svg \<le> real_of_int (width (framebuffer c))
            \<and> svgTotalHeight parent svg \<le> real_of_int (height (framebuffer c))
            \<longrightarrow> cursorOnPage c' \<and> framebuffer c' = framebuffer c \<and> slotsWithinPage c')"
proof -
  let ?w = "svgTotalWidth parent svg" and ?h = "svgTotalHeight parent svg"
  from put_cases [OF put]
  consider (same) "c' = c"
    | (placed) bytes c1 p where "md5String svg = Some bytes" "0 < ?w" "0 < ?h"
        "placeAtCursor lru_evict (wrapIfNeeded c ?w) ?w ?h = Some (c1, p)"
        "c' = dispatchRender ex (svgScale parent) p
                (insertEntry c1
                   (hash H bytes (svgScale parent) (percentReplacementTransformed parent)) ?w ?h p)"
    by blast
  then show ?thesis
  proof cases
    case same
    then show ?thesis by simp
  next
    case placed
    let ?k = "hash H bytes (svgScale parent) (percentReplacementTransformed parent)"
    note store = placeAtCursor_store [OF placed(4)]
    have covers: "list_all slotCoversContent (map snd (cachedSvgs c'))"
      if old: "list_all slotCoversContent (map snd (cachedSvgs c))"
    proof -
      from old store have "list_all slotCoversContent (map snd (cachedSvgs c1))"
        by (auto intro: list_all_subset)
      then have "list_all slotCoversContent (map snd (cachedSvgs (insertEntry c1 ?k ?w ?h p)))"
        using placeAtCursor_allotted [OF placed(4)]
        by (intro list_all_insertEntry) (simp_all add: slotCoversContent_def)
      then show ?thesis by (simp add: placed(5))
    qed
    have within: "cursorOnPage c' \<and> framebuffer c' = framebuffer c
                \<and> list_all (slotWithinPage (framebuffer c')) (map snd (cachedSvgs c'))"
      if inv: "cursorOnPage c
            \<and> list_all (slotWithinPage (framebuffer c)) (map snd (cachedSvgs c))
            \<and> ?w \<le> real_of_int (width (framebuffer c))
            \<and> ?h \<le> real_of_int (height (framebuffer c))"
    proof -
      from inv have cursor: "cursorOnPage c"
        and slots: "list_all (slotWithinPage (framebuffer c)) (map snd (cachedSvgs c))"
        and fitw: "?w \<le> real_of_int (width (framebuffer c))"
        and fith: "?h \<le> real_of_int (height (framebuffer c))"
        by simp_all
      from wrapIfNeeded_cursor [OF cursor placed(2) fitw]
      have wc: "cursorOnPage (wrapIfNeeded c ?w)"
        and wx: "vec_x (cacheCurrentPos (wrapIfNeeded c ?w)) + ?w
                   \<le> real_of_int (width (framebuffer (wrapIfNeeded c ?w)))"
        by simp_all
      have ws: "list_all (slotWithinPage (framebuffer (wrapIfNeeded c ?w)))
                  (map snd (cachedSvgs (wrapIfNeeded c ?w)))"
        using slots by simp
      have wh: "?h \<le> real_of_int (height (framebuffer (wrapIfNeeded c ?w)))"
        using fith by simp
      from placeAtCursor_within [OF placed(4) wc ws wx wh placed(2) placed(3)]
      have c1: "cursorOnPage c1"
        and p: "0 \<le> vec_x (svgTextureOffset p)" "0 \<le> vec_y (svgTextureOffset p)"
          "vec_x (svgTextureOffset p) + vec_x (allotted p) \<le> real_of_int (width (framebuffer c))"
          "vec_y (svgTextureOffset p) + vec_y (allotted p) \<le> real_of_int (height (framebuffer c))"
        by simp_all
      have fb1: "framebuffer c1 = framebuffer c"
        using store by simp
      have fb: "framebuffer c' = framebuffer c"
        by (simp add: placed(5) insertEntry_fields fb1)
      have cur: "cursorOnPage c'"
        using cursorOnPage_insertEntry [OF c1 placed(2) placed(3), of ?k p]
        by (simp add: placed(5) cursorOnPage_def)
      from slots store have "list_all (slotWithinPage (framebuffer c)) (map snd (cachedSvgs c1))"
        by (auto intro: list_all_subset)
      then have "list_all (slotWithinPage (framebuffer c))
                   (map snd (cachedSvgs (insertEntry c1 ?k ?w ?h p)))"
        using p by (intro list_all_insertEntry) (simp_all add: slotWithinPage_def)
      then have "list_all (slotWithinPage (framebuffer c')) (map snd (cachedSvgs c'))"
        by (simp add: placed(5) fb [unfolded placed(5)] insertEntry_fields fb1)
      with cur fb show ?thesis by simp
    qed
    from covers within show ?thesis
      unfolding slotsCoverContent_def slotsWithinPage_def by blast
  qed
qed

text \<open>
  C8, as stated: the slot of every stored entry lies within its page. It does not for
  an SVG wider than the page: 5000 by 100 pixels into the initial cache of 4096 by
  4096 pixels goes to the next line at \<open>x = 0\<close> and is stored there with a slot of
  5000 by 100 pixels.
\<close>

theorem C8_counterexample:
  "map_option (map (textureOffset \<circ> snd) \<circ> cachedSvgs)
     (put sampleHashers False initialCache (objectOf (rectSvg [] 5000 100)) (rectSvg [] 5000 100))
     = Some [Vec2 0 10]
   \<and> map_option (map (allottedSize \<circ> snd) \<circ> cachedSvgs)
     (put sampleHashers False initialCache (objectOf (rectSvg [] 5000 100)) (rectSvg [] 5000 100))
     = Some [Vec2 5000 100]
   \<and> map_option slotsWithinPage
     (put sampleHashers False initialCache (objectOf (rectSvg [] 5000 100)) (rectSvg [] 5000 100))
     = Some False"
  by (simp add: put_defs sample_defs slotsWithinPage_def slotWithinPage_def Let_def)

theorem C8_placement_bounds_witness:
  "slotsCoverContent onceCache
   \<and> cursorOnPage onceCache
   \<and> slotsWithinPage onceCache
   \<and> svgTotalWidth (objectOf (rectSvg [1] 200 50)) (rectSvg [1] 200 50)
        \<le> real_of_int (width (framebuffer onceCache))
   \<and> svgTotalHeight (objectOf (rectSvg [1] 200 50)) (rectSvg [1] 200 50)
        \<le> real_of_int (height (framebuffer onceCache))
   \<and> (\<exists>c'. put sampleHashers False onceCache (objectOf (rectSvg [1] 200 50)) (rectSvg [1] 200 50)
               = Some c'
          \<and> map (textureOffset \<circ> snd) (cachedSvgs c') = [Vec2 0 0, Vec2 110 0]
          \<and> slotsCoverContent c'
          \<and> cursorOnPage c'
          \<and> slotsWithinPage c')"
proof -
  let ?svg = "rectSvg [1] 200 50"
  have covers: "slotsCoverContent onceCache"
    by (simp add: onceCache_def slotsCoverContent_def slotCoversContent_def)
  have cursor: "cursorOnPage onceCache"
    by (simp add: onceCache_def cursorOnPage_def)
  have slots: "slotsWithinPage onceCache"
    by (simp add: onceCache_def slotsWithinPage_def slotWithinPage_def sample_defs)
  have fitw: "svgTotalWidth (objectOf ?svg) ?svg \<le> real_of_int (width (framebuffer onceCache))"
    and fith: "svgTotalHeight (objectOf ?svg) ?svg \<le> real_of_int (height (framebuffer onceCache))"
    by (simp_all add: sample_sizes onceCache_def sample_defs)
  have key2: "hash sampleHashers [1] 1 0 \<noteq> hash sampleHashers [] 1 0"
    by (simp add: hash_def cast_scale_1 cast_transform_0 sampleHashers_def mixHash_def)
  obtain c' where put: "put sampleHashers False onceCache (objectOf ?svg) ?svg = Some c'"
    and offs: "map (textureOffset \<circ> snd) (cachedSvgs c') = [Vec2 0 0, Vec2 110 0]"
    using key2 by (simp add: onceCache_def put_defs sample_defs Let_def)
  from C8_placement_bounds [OF put] covers cursor slots fitw fith
  have after: "slotsCoverContent c' \<and> cursorOnPage c' \<and> slotsWithinPage c'"
    by blast
  have "\<exists>c'. put sampleHashers False onceCache (objectOf ?svg) ?svg = Some c'
          \<and> map (textureOffset \<circ> snd) (cachedSvgs c') = [Vec2 0 0, Vec2 110 0]
          \<and> slotsCoverContent c'
          \<and> cursorOnPage c'
          \<and> slotsWithinPage c'"
    by (rule exI [of _ c']) (simp only: put offs after simp_thms)
  with covers cursor slots fitw fith show ?thesis
    by (simp only: simp_thms)
qed

section \<open>The keys of the store\<close>

text \<open>The keys of the store are distinct at the start and \<^verbatim>\<open>put\<close> keeps them
  distinct, as the theorem on the rotation of pages assumes.\<close>

lemma distinct_lru_remove:
  "distinct (map fst s) \<Longrightarrow> distinct (map fst (lru_remove k s))"
  by (simp add: lru_remove_def distinct_map_filter)

lemma distinct_lru_insert:
  "distinct (map fst s) \<Longrightarrow> distinct (map fst (lru_insert k v s))"
  by (auto simp: lru_insert_def lru_remove_def distinct_map_filter)

lemma distinct_growCache:
  assumes "growCache lru_evict c = Some c1" and "distinct (map fst (cachedSvgs c))"
  shows "distinct (map fst (cachedSvgs c1))"
  using assms
  by (auto simp: growCache_def Let_def fst_growLoop_lru_evict distinct_map_filter split: if_splits)

lemma put_keeps_distinct:
  assumes put: "put H ex c parent svg = Some c'" and keys: "distinct (map fst (cachedSvgs c))"
  shows "distinct (map fst (cachedSvgs c'))"
proof -
  from put_cases [OF put]
  consider (same) "c' = c"
    | (placed) bytes c1 p where
        "placeAtCursor lru_evict (wrapIfNeeded c (svgTotalWidth parent svg))
           (svgTotalWidth parent svg) (svgTotalHeight parent svg) = Some (c1, p)"
        "c' = dispatchRender ex (svgScale parent) p
                (insertEntry c1
                   (hash H bytes (svgScale parent) (percentReplacementTransformed parent))
                   (svgTotalWidth parent svg) (svgTotalHeight parent svg) p)"
    by blast
  then show ?thesis
  proof cases
    case same
    with keys show ?thesis by simp
  next
    case placed
    have "distinct (map fst (cachedSvgs c1))"
      using placeAtCursor_cases [OF placed(1)] keys
        distinct_growCache [of "wrapIfNeeded c (svgTotalWidth parent svg)" c1]
      by (auto simp: distinct_lru_remove)
    then show ?thesis
      by (simp add: placed(2) insertEntry_def Let_def distinct_lru_insert
            checkLineHeight_def incrementCacheCurrentX_def)
  qed
qed

lemma initialCache_distinct: "distinct (map fst (cachedSvgs initialCache))"
  by (simp add: sample_defs)

text \<open>The initial cache has its cursor on the page and no entry, so that the bounds
  above hold at the start.\<close>

lemma initialCache_bounds:
  "cursorOnPage initialCache \<and> slotsCoverContent initialCache \<and> slotsWithinPage initialCache"
  by (simp add: cursorOnPage_def slotsCoverContent_def slotsWithinPage_def sample_defs)

end
